theory Spec2Isabelle
  imports Main "HOL-Library.Multiset"
begin

text \<open>
  The entry-extraction engine of the FOMC calendar scraper: the date-range parsers, the
  link classifiers and the three assemblers (\<open>parse_current_calendar\<close>,
  \<open>parse_future_calendar\<close>, \<open>parse_historical\<close> with \<open>_parse_year_page\<close>). The document tree
  is the work of the HTML library and is not modelled: each pipeline is a function of what
  its code reads from the tree (texts, links, the contextual year), as the sections on the
  pipelines say. Patterns are terms of a small regular-expression datatype with the
  matching order of Python; exceptions are the \<open>Inl\<close> values of a sum.
\<close>

section \<open>Text\<close>

text \<open>
  A Python \<open>str\<close> is modelled as a \<^typ>\<open>string\<close>: a list of 8-bit characters, read as the
  code points 0..255. On that alphabet the classes below are exactly the ones of Python's
  \<open>re\<close> and \<open>str\<close> (\<open>\s\<close>, \<open>\d\<close>, \<open>\w\<close>, \<open>str.lower\<close>, \<open>str.strip\<close>). Code points above
  255 (the en dash of the class \<open>[-\<dots>]\<close> in the date patterns is one) are outside the model,
  so that alternative of the class is not written.
\<close>

definition code :: "char \<Rightarrow> nat" where
  "code c = of_char c"

definition is_digit :: "char \<Rightarrow> bool" where
  "is_digit c = (48 \<le> code c \<and> code c \<le> 57)"

definition is_space :: "char \<Rightarrow> bool" where
  "is_space c = ((9 \<le> code c \<and> code c \<le> 13) \<or> (28 \<le> code c \<and> code c \<le> 32)
     \<or> code c = 133 \<or> code c = 160)"

definition is_word :: "char \<Rightarrow> bool" where
  "is_word c = (let n = code c in
     (48 \<le> n \<and> n \<le> 57) \<or> (65 \<le> n \<and> n \<le> 90) \<or> n = 95 \<or> (97 \<le> n \<and> n \<le> 122)
     \<or> n = 170 \<or> n = 178 \<or> n = 179 \<or> n = 181 \<or> n = 185 \<or> n = 186
     \<or> (188 \<le> n \<and> n \<le> 190) \<or> (192 \<le> n \<and> n \<le> 214) \<or> (216 \<le> n \<and> n \<le> 246)
     \<or> (248 \<le> n \<and> n \<le> 255))"

definition lower_char :: "char \<Rightarrow> char" where
  "lower_char c = (let n = code c in
     if (65 \<le> n \<and> n \<le> 90) \<or> (192 \<le> n \<and> n \<le> 214) \<or> (216 \<le> n \<and> n \<le> 222)
     then char_of (n + 32) else c)"

definition upper_ascii :: "char \<Rightarrow> char" where
  "upper_ascii c = (let n = code c in if 97 \<le> n \<and> n \<le> 122 then char_of (n - 32) else c)"

definition lower :: "string \<Rightarrow> string" where
  "lower s = map lower_char s"

definition py_strip :: "string \<Rightarrow> string" where
  "py_strip s = rev (dropWhile is_space (rev (dropWhile is_space s)))"

fun startswith :: "string \<Rightarrow> string \<Rightarrow> bool" where
  "startswith s [] = True"
| "startswith [] (p # ps) = False"
| "startswith (x # xs) (p # ps) = (x = p \<and> startswith xs ps)"

text \<open>\<open>sub in s\<close> of Python.\<close>

fun str_in :: "string \<Rightarrow> string \<Rightarrow> bool" where
  "str_in sub [] = (sub = [])"
| "str_in sub (x # xs) = (startswith (x # xs) sub \<or> str_in sub xs)"

text \<open>\<open>s.split(sep)\<close> for a separator of one character.\<close>

fun split_on :: "char \<Rightarrow> string \<Rightarrow> string list" where
  "split_on sep [] = [Nil]"
| "split_on sep (x # xs) =
     (if x = sep then [] # split_on sep xs
      else (case split_on sep xs of p # ps \<Rightarrow> (x # p) # ps | [] \<Rightarrow> [x # Nil]))"

text \<open>Python truthiness of an \<open>Optional[str]\<close>: \<open>None\<close> and the empty string are falsy.\<close>

fun truthy :: "string option \<Rightarrow> bool" where
  "truthy None = False"
| "truthy (Some s) = (s \<noteq> [])"

section \<open>Integers and their text\<close>

datatype error = ValueError | KeyError | TypeError | AttributeError | TransportError

definition ebind :: "error + 'a \<Rightarrow> ('a \<Rightarrow> error + 'b) \<Rightarrow> error + 'b" where
  "ebind r f = (case r of Inl e \<Rightarrow> Inl e | Inr v \<Rightarrow> f v)"

definition digit_char :: "nat \<Rightarrow> char" where
  "digit_char n = char_of (48 + n)"

function digits :: "nat \<Rightarrow> string" where
  "digits n = (if n < 10 then [digit_char n] else digits (n div 10) @ [digit_char (n mod 10)])"
  by pat_completeness auto
termination
  by (relation "measure id") auto

declare digits.simps [simp del]

text \<open>\<open>str(n)\<close> for an integer.\<close>

definition py_str :: "int \<Rightarrow> string" where
  "py_str n = (if n < 0 then CHR ''-'' # digits (nat (- n)) else digits (nat n))"

text \<open>The format \<open>{n:0wd}\<close>: zero padding to width \<open>w\<close>, the sign first and counted.\<close>

definition zfill :: "nat \<Rightarrow> string \<Rightarrow> string" where
  "zfill w s = replicate (w - length s) CHR ''0'' @ s"

definition fmt_0d :: "nat \<Rightarrow> int \<Rightarrow> string" where
  "fmt_0d w n = (if n < 0 then CHR ''-'' # zfill (w - 1) (digits (nat (- n)))
                 else zfill w (digits (nat n)))"

definition digit_val :: "char \<Rightarrow> nat" where
  "digit_val c = code c - 48"

definition nat_of_digits :: "string \<Rightarrow> nat" where
  "nat_of_digits s = foldl (\<lambda>a c. 10 * a + digit_val c) 0 s"

text \<open>
  \<open>int(s)\<close> on text: surrounding white space, an optional sign, decimal digits; anything
  else is the \<open>ValueError\<close> (\<open>None\<close> here). Python also takes single underscores between
  digits, which no text of this program has.
\<close>

definition py_int :: "string \<Rightarrow> int option" where
  "py_int s = (let t = py_strip s;
                   neg = startswith t ''-'';
                   body = (if startswith t ''-'' \<or> startswith t ''+'' then tl t else t)
               in if body \<noteq> [] \<and> list_all is_digit body
                  then Some (if neg then - int (nat_of_digits body) else int (nat_of_digits body))
                  else None)"

section \<open>Regular expressions\<close>

text \<open>
  The patterns of the program use literals, classes, greedy repetition of a class, optional
  groups, alternation, named or numbered groups, \<open>\b\<close>, \<open>^\<close> and \<open>$\<close>. A pattern is a term
  of \<open>rx\<close>; \<open>rmatch\<close> lists the ways it matches at a position, in the order in which a
  backtracking matcher tries them (longest repetition first, left alternative first), so
  the head of the list is the match Python reports.
\<close>

datatype cset = AnyChar | Digit | Space | OneOf string | NoneOf string | Range char char

datatype rx =
    Lit string
  | Cls cset
  | Rep cset nat "nat option"
  | Opt rx
  | Seq rx rx
  | Alt rx rx
  | Grp string rx
  | WordB
  | Bol
  | Eol

text \<open>A position: the character before it, the text from it on, the groups bound so far.\<close>

type_synonym cfg = "char option \<times> string \<times> (string \<times> string) list"

definition in_range :: "char \<Rightarrow> char \<Rightarrow> char \<Rightarrow> bool" where
  "in_range a b c = (code a \<le> code c \<and> code c \<le> code b)"

fun in_cset :: "bool \<Rightarrow> cset \<Rightarrow> char \<Rightarrow> bool" where
  "in_cset ic AnyChar c = (c \<noteq> CHR 0x0A)"
| "in_cset ic Digit c = is_digit c"
| "in_cset ic Space c = is_space c"
| "in_cset ic (OneOf s) c = (c \<in> set s \<or> (ic \<and> (lower_char c \<in> set s \<or> upper_ascii c \<in> set s)))"
| "in_cset ic (NoneOf s) c = (\<not> (c \<in> set s \<or> (ic \<and> (lower_char c \<in> set s \<or> upper_ascii c \<in> set s))))"
| "in_cset ic (Range a b) c =
     (in_range a b c \<or> (ic \<and> (in_range a b (lower_char c) \<or> in_range a b (upper_ascii c))))"

definition chr_eq :: "bool \<Rightarrow> char \<Rightarrow> char \<Rightarrow> bool" where
  "chr_eq ic l x = (if ic then lower_char l = lower_char x else l = x)"

fun lit_match :: "bool \<Rightarrow> string \<Rightarrow> cfg \<Rightarrow> cfg list" where
  "lit_match ic [] c = [c]"
| "lit_match ic (l # ls) (p, [], g) = []"
| "lit_match ic (l # ls) (p, x # xs, g) =
     (if chr_eq ic l x then lit_match ic ls (Some x, xs, g) else [])"

definition advance :: "nat \<Rightarrow> cfg \<Rightarrow> cfg" where
  "advance j c = (case c of (p, rest, g) \<Rightarrow>
     (if j = 0 then p else Some (rest ! (j - 1)), drop j rest, g))"

definition word_opt :: "char option \<Rightarrow> bool" where
  "word_opt p = (case p of None \<Rightarrow> False | Some c \<Rightarrow> is_word c)"

definition first_char :: "string \<Rightarrow> char option" where
  "first_char s = (case s of [] \<Rightarrow> None | x # _ \<Rightarrow> Some x)"

fun rmatch :: "bool \<Rightarrow> rx \<Rightarrow> cfg \<Rightarrow> cfg list" where
  "rmatch ic (Lit s) c = lit_match ic s c"
| "rmatch ic (Cls k) (p, rest, g) =
     (case rest of [] \<Rightarrow> [] | x # xs \<Rightarrow> if in_cset ic k x then [(Some x, xs, g)] else [])"
| "rmatch ic (Rep k lo hi) (p, rest, g) =
     (let n = length (takeWhile (in_cset ic k) rest);
          m = (case hi of None \<Rightarrow> n | Some h \<Rightarrow> min n h)
      in map (\<lambda>j. advance j (p, rest, g)) (rev [lo ..< Suc m]))"
| "rmatch ic (Opt r) c = rmatch ic r c @ [c]"
| "rmatch ic (Seq a b) c = concat (map (rmatch ic b) (rmatch ic a c))"
| "rmatch ic (Alt a b) c = rmatch ic a c @ rmatch ic b c"
| "rmatch ic (Grp n r) (p, rest, g) =
     map (\<lambda>(p', rest', g'). (p', rest', (n, take (length rest - length rest') rest) # g'))
         (rmatch ic r (p, rest, g))"
| "rmatch ic WordB (p, rest, g) =
     (if word_opt p \<noteq> word_opt (first_char rest) then [(p, rest, g)] else [])"
| "rmatch ic Bol (p, rest, g) = (if p = None then [(p, rest, g)] else [])"
| "rmatch ic Eol (p, rest, g) =
     (if rest = [] \<or> rest = [CHR 0x0A] then [(p, rest, g)] else [])"

fun seqs :: "rx list \<Rightarrow> rx" where
  "seqs [] = Lit []"
| "seqs [r] = r"
| "seqs (r # rs) = Seq r (seqs rs)"

fun alts :: "rx list \<Rightarrow> rx" where
  "alts [] = Cls (OneOf [])"
| "alts [r] = r"
| "alts (r # rs) = Alt r (alts rs)"

text \<open>A match object: the text before the match, the match, its groups, the text after.\<close>

record rx_match =
  before :: string
  matched :: string
  groups :: "(string \<times> string) list"
  after :: string

definition group :: "rx_match \<Rightarrow> string \<Rightarrow> string option" where
  "group m n = map_of (groups m) n"

text \<open>\<open>re.search\<close>: the first match at the leftmost position that has one.\<close>

fun search_from :: "bool \<Rightarrow> rx \<Rightarrow> string \<Rightarrow> string \<Rightarrow> rx_match option" where
  "search_from ic r bef [] =
     (case rmatch ic r (first_char bef, [], []) of
        (p', rest', g) # _ \<Rightarrow> Some \<lparr>before = rev bef, matched = [], groups = g, after = []\<rparr>
      | [] \<Rightarrow> None)"
| "search_from ic r bef (x # xs) =
     (case rmatch ic r (first_char bef, x # xs, []) of
        (p', rest', g) # _ \<Rightarrow>
          Some \<lparr>before = rev bef, matched = take (length (x # xs) - length rest') (x # xs),
                groups = g, after = rest'\<rparr>
      | [] \<Rightarrow> search_from ic r (x # bef) xs)"

definition re_search :: "bool \<Rightarrow> rx \<Rightarrow> string \<Rightarrow> rx_match option" where
  "re_search ic r s = search_from ic r [] s"

text \<open>\<open>re.match\<close>: a match at the start of the text only.\<close>

definition re_match :: "bool \<Rightarrow> rx \<Rightarrow> string \<Rightarrow> rx_match option" where
  "re_match ic r s =
     (case rmatch ic r (None, s, []) of
        (p', rest', g) # _ \<Rightarrow>
          Some \<lparr>before = [], matched = take (length s - length rest') s, groups = g, after = rest'\<rparr>
      | [] \<Rightarrow> None)"

text \<open>
  \<open>re.sub\<close> for a pattern that matches no empty text (the three patterns it is used with
  each need a character): the matches are found left to right, each replaced by \<open>repl\<close>.
  \<open>skip\<close> counts the characters of the current match still to pass.
\<close>

fun sub_from :: "bool \<Rightarrow> rx \<Rightarrow> string \<Rightarrow> nat \<Rightarrow> char option \<Rightarrow> string \<Rightarrow> string" where
  "sub_from ic r repl skip p [] = []"
| "sub_from ic r repl (Suc k) p (x # xs) = sub_from ic r repl k (Some x) xs"
| "sub_from ic r repl 0 p (x # xs) =
     (case rmatch ic r (p, x # xs, []) of
        (p', rest', g) # _ \<Rightarrow>
          (let n = length (x # xs) - length rest'
           in if n = 0 then x # sub_from ic r repl 0 (Some x) xs
              else repl @ sub_from ic r repl (n - 1) (Some x) xs)
      | [] \<Rightarrow> x # sub_from ic r repl 0 (Some x) xs)"

definition re_sub :: "bool \<Rightarrow> rx \<Rightarrow> string \<Rightarrow> string \<Rightarrow> string" where
  "re_sub ic r repl s = sub_from ic r repl 0 None s"

section \<open>Date-range lexicon\<close>

definition MONTH_TO_NUM :: "string \<rightharpoonup> int" where
  "MONTH_TO_NUM = map_of
     [(''jan'', 1), (''january'', 1),
      (''feb'', 2), (''february'', 2),
      (''mar'', 3), (''march'', 3),
      (''apr'', 4), (''april'', 4),
      (''may'', 5),
      (''jun'', 6), (''june'', 6),
      (''jul'', 7), (''july'', 7),
      (''aug'', 8), (''august'', 8),
      (''sep'', 9), (''sept'', 9), (''september'', 9),
      (''oct'', 10), (''october'', 10),
      (''nov'', 11), (''november'', 11),
      (''dec'', 12), (''december'', 12)]"

text \<open>The alternation of month names, \<open>mon_pat\<close> of both date parsers.\<close>

definition mon_pat :: rx where
  "mon_pat = alts
     [Seq (Lit ''Jan'') (Opt (Lit ''uary'')),
      Seq (Lit ''Feb'') (Opt (Lit ''ruary'')),
      Seq (Lit ''Mar'') (Opt (Lit ''ch'')),
      Seq (Lit ''Apr'') (Opt (Lit ''il'')),
      Lit ''May'',
      Seq (Lit ''Jun'') (Opt (Lit ''e'')),
      Seq (Lit ''Jul'') (Opt (Lit ''y'')),
      Seq (Lit ''Aug'') (Opt (Lit ''ust'')),
      Seq (Lit ''Sep'') (Opt (Seq (Lit ''t'') (Opt (Lit ''ember'')))),
      Seq (Lit ''Oct'') (Opt (Lit ''ober'')),
      Seq (Lit ''Nov'') (Opt (Lit ''ember'')),
      Seq (Lit ''Dec'') (Opt (Lit ''ember''))]"

text \<open>\<open>MONTH_RE\<close>, compiled with \<open>re.I\<close>.\<close>

definition MONTH_RE :: rx where
  "MONTH_RE = seqs [WordB, Grp ''1'' mon_pat, WordB]"

text \<open>\<open>YEAR_IN_HDR\<close> and \<open>YEAR_IN_HREF\<close>: \<open>(19|20)\d{2}\<close>.\<close>

definition YEAR_RE :: rx where
  "YEAR_RE = Seq (Grp ''1'' (Alt (Lit ''19'') (Lit ''20''))) (Rep Digit 2 (Some 2))"

section \<open>Calendar entries\<close>

text \<open>
  \<open>meeting_type\<close> is a \<open>str\<close> field that only ever holds \<open>"Scheduled"\<close>, \<open>"Unscheduled"\<close> or
  \<open>"Notation Vote"\<close>.
\<close>

datatype meeting_type = Scheduled | Unscheduled | NotationVote

record entry =
  year :: int
  start_date :: "string option"
  end_date :: "string option"
  meeting_type :: meeting_type
  is_cancelled :: bool
  has_sep_projections :: bool
  statement_url_html :: "string option"
  minutes_url_html :: "string option"
  press_conference_url_html :: "string option"
  source_url :: string

definition CURRENT_CALENDAR_URL :: string where
  "CURRENT_CALENDAR_URL = ''https://www.federalreserve.gov/monetarypolicy/fomccalendars.htm''"

definition BASE_URL :: string where
  "BASE_URL = ''https://www.federalreserve.gov''"

text \<open>The identity key \<open>(year, start_date, end_date)\<close> of an entry.\<close>

type_synonym key = "int \<times> string option \<times> string option"

definition key_of :: "entry \<Rightarrow> key" where
  "key_of e = (year e, start_date e, end_date e)"

section \<open>Date-range parser of the in-progress calendar\<close>

definition normalize_text :: "string \<Rightarrow> string" where
  "normalize_text text = py_strip (re_sub False (Rep Space 1 None) '' '' text)"

text \<open>\<open>int(m.group(n))\<close> and \<open>MONTH_TO_NUM[m.group(n).lower()]\<close>, with their exceptions.\<close>

definition group_int :: "rx_match \<Rightarrow> string \<Rightarrow> error + int" where
  "group_int m n = (case group m n of None \<Rightarrow> Inl TypeError
     | Some s \<Rightarrow> (case py_int s of None \<Rightarrow> Inl ValueError | Some i \<Rightarrow> Inr i))"

definition group_lower :: "rx_match \<Rightarrow> string \<Rightarrow> error + string" where
  "group_lower m n = (case group m n of None \<Rightarrow> Inl AttributeError | Some s \<Rightarrow> Inr (lower s))"

definition month_of_name :: "string \<Rightarrow> error + int" where
  "month_of_name s = (case MONTH_TO_NUM s of None \<Rightarrow> Inl KeyError | Some k \<Rightarrow> Inr k)"

text \<open>The number of the month that a group names: both steps together.\<close>

definition group_month :: "rx_match \<Rightarrow> string \<Rightarrow> error + int" where
  "group_month m n = ebind (group_lower m n) month_of_name"

text \<open>The text \<open>f"{y:04d}-{m:02d}-{d:02d}"\<close>.\<close>

definition fmt_date :: "int \<Rightarrow> int \<Rightarrow> int \<Rightarrow> string" where
  "fmt_date y m d = fmt_0d 4 y @ ''-'' @ fmt_0d 2 m @ ''-'' @ fmt_0d 2 d"

text \<open>The separator \<open>\s*[-\<dots>]\s*\<close> between the two days of a range.\<close>

definition dash_sep :: rx where
  "dash_sep = seqs [Rep Space 0 None, Cls (OneOf ''-''), Rep Space 0 None]"

definition day_grp :: "string \<Rightarrow> rx" where
  "day_grp n = Grp n (Rep Digit 1 (Some 2))"

definition cross_month_rx :: rx where
  "cross_month_rx = seqs [WordB, Grp ''m1'' mon_pat, Lit ''/'', Grp ''m2'' mon_pat,
     Rep Space 1 None, day_grp ''d1'', dash_sep, day_grp ''d2'', WordB]"

definition same_month_rx :: rx where
  "same_month_rx = seqs [WordB, Grp ''m1'' mon_pat, Rep Space 1 None, day_grp ''d1'',
     dash_sep, day_grp ''d2'', WordB]"

definition single_day_rx :: rx where
  "single_day_rx = seqs [WordB, Grp ''m1'' mon_pat, Rep Space 1 None, day_grp ''d1'', WordB]"

text \<open>The three date branches: what each computes from its match.\<close>

definition cross_month_dates :: "int \<Rightarrow> rx_match \<Rightarrow> error + string \<times> string" where
  "cross_month_dates yr m =
     ebind (group_lower m ''m1'') (\<lambda>m1.
     ebind (group_lower m ''m2'') (\<lambda>m2.
     ebind (group_int m ''d1'') (\<lambda>d1.
     ebind (group_int m ''d2'') (\<lambda>d2.
     ebind (month_of_name m1) (\<lambda>month1.
     ebind (month_of_name m2) (\<lambda>month2.
       let end_year = yr + (if month2 < month1 then 1 else 0)
       in Inr (fmt_date yr month1 d1, fmt_date end_year month2 d2)))))))"

definition same_month_dates :: "int \<Rightarrow> rx_match \<Rightarrow> error + string \<times> string" where
  "same_month_dates yr m =
     ebind (group_lower m ''m1'') (\<lambda>m1.
     ebind (group_int m ''d1'') (\<lambda>d1.
     ebind (group_int m ''d2'') (\<lambda>d2.
     ebind (month_of_name m1) (\<lambda>month.
       Inr (fmt_date yr month d1, fmt_date yr month d2)))))"

definition single_day_dates :: "int \<Rightarrow> rx_match \<Rightarrow> error + string \<times> string" where
  "single_day_dates yr m =
     ebind (group_lower m ''m1'') (\<lambda>m1.
     ebind (group_int m ''d1'') (\<lambda>d1.
     ebind (month_of_name m1) (\<lambda>month.
       Inr (fmt_date yr month d1, fmt_date yr month d1))))"

text \<open>The chain of the three patterns: the first that matches decides.\<close>

definition find_dates :: "rx \<Rightarrow> rx \<Rightarrow> rx \<Rightarrow> int \<Rightarrow> string \<Rightarrow> error + (string \<times> string) option" where
  "find_dates cross same single yr text =
     (case re_search True cross text of
        Some m \<Rightarrow> ebind (cross_month_dates yr m) (\<lambda>r. Inr (Some r))
      | None \<Rightarrow>
     (case re_search True same text of
        Some m \<Rightarrow> ebind (same_month_dates yr m) (\<lambda>r. Inr (Some r))
      | None \<Rightarrow>
     (case re_search True single text of
        Some m \<Rightarrow> ebind (single_day_dates yr m) (\<lambda>r. Inr (Some r))
      | None \<Rightarrow> Inr None)))"

text \<open>The parenthetical note \<open>\(([^)]+)\)\<close>.\<close>

definition note_rx :: rx where
  "note_rx = seqs [Lit ''('', Grp ''1'' (Rep (NoneOf '')'') 1 None), Lit '')'']"

record parsed =
  p_start :: "string option"
  p_end :: "string option"
  p_type :: meeting_type
  p_cancelled :: bool
  p_sep :: bool

text \<open>
  \<open>_parse_dates_and_flags\<close>, in the order of the source: the text without asterisks, the
  first parenthetical note and the text without it, the dates, the flags read from the note.
\<close>

definition star_free :: "string \<Rightarrow> string" where
  "star_free date_prefix = normalize_text (re_sub False (Rep (OneOf ''*'') 1 None) [] date_prefix)"

definition note_of :: "string \<Rightarrow> string option" where
  "note_of date_prefix =
     (case re_search False note_rx (star_free date_prefix) of
        None \<Rightarrow> None
      | Some m \<Rightarrow> map_option py_strip (group m ''1''))"

definition text_wo_note :: "string \<Rightarrow> string" where
  "text_wo_note date_prefix =
     (case re_search False note_rx (star_free date_prefix) of
        None \<Rightarrow> star_free date_prefix
      | Some m \<Rightarrow> py_strip (before m @ after m))"

text \<open>\<open>w in note.lower()\<close> under the guard \<open>if note\<close>.\<close>

definition note_has :: "string option \<Rightarrow> string \<Rightarrow> bool" where
  "note_has note w = (truthy note \<and> str_in w (lower (the note)))"

definition parse_dates_and_flags :: "int \<Rightarrow> string \<Rightarrow> bool \<Rightarrow> error + parsed" where
  "parse_dates_and_flags yr date_prefix has_projection =
     (let had_star = str_in ''*'' date_prefix;
          note = note_of date_prefix
      in ebind (find_dates cross_month_rx same_month_rx single_day_rx yr (text_wo_note date_prefix))
           (\<lambda>ds.
              let mt0 = (if note_has note ''unscheduled'' then Unscheduled else Scheduled);
                  mt = (if note_has note ''notation vote'' then NotationVote else mt0);
                  canc = (note_has note ''cancelled'' \<or> note_has note ''canceled'')
              in Inr \<lparr>p_start = map_option fst ds, p_end = map_option snd ds, p_type = mt,
                      p_cancelled = canc, p_sep = (had_star \<or> has_projection)\<rparr>))"

section \<open>Calendar dates\<close>

text \<open>
  \<open>datetime.date(y, m, d)\<close>: a date is built only for a year 1..9999, a month 1..12 and a
  day of that month; anything else raises \<open>ValueError\<close> (\<open>None\<close> here). Dates compare as the
  triple (year, month, day).
\<close>

type_synonym date = "int \<times> int \<times> int"

definition is_leap :: "int \<Rightarrow> bool" where
  "is_leap y = (y mod 4 = 0 \<and> (y mod 100 \<noteq> 0 \<or> y mod 400 = 0))"

definition days_in_month :: "int \<Rightarrow> int \<Rightarrow> int" where
  "days_in_month y m =
     (if m = 2 then (if is_leap y then 29 else 28)
      else if m = 4 \<or> m = 6 \<or> m = 9 \<or> m = 11 then 30 else 31)"

definition mk_date :: "int \<Rightarrow> int \<Rightarrow> int \<Rightarrow> date option" where
  "mk_date y m d =
     (if 1 \<le> y \<and> y \<le> 9999 \<and> 1 \<le> m \<and> m \<le> 12 \<and> 1 \<le> d \<and> d \<le> days_in_month y m
      then Some (y, m, d) else None)"

definition date_le :: "date \<Rightarrow> date \<Rightarrow> bool" where
  "date_le a b = (case a of (y1, m1, d1) \<Rightarrow> case b of (y2, m2, d2) \<Rightarrow>
     y1 < y2 \<or> (y1 = y2 \<and> (m1 < m2 \<or> (m1 = m2 \<and> d1 \<le> d2))))"

definition date_lt :: "date \<Rightarrow> date \<Rightarrow> bool" where
  "date_lt a b = (date_le a b \<and> a \<noteq> b)"

text \<open>The three integers of a text \<open>y-m-d\<close>: \<open>y, m, d = s.split("-")\<close> and \<open>int\<close> of each.\<close>

definition iso_triple :: "string \<Rightarrow> (int \<times> int \<times> int) option" where
  "iso_triple s =
     (case split_on CHR ''-'' s of
        [y, m, d] \<Rightarrow>
          (case (py_int y, py_int m, py_int d) of
             (Some yi, Some mi, Some di) \<Rightarrow> Some (yi, mi, di)
           | _ \<Rightarrow> None)
      | _ \<Rightarrow> None)"

text \<open>\<open>_date_from_iso\<close>: the only guard is the one for an absent or empty text.\<close>

definition date_from_iso :: "string option \<Rightarrow> error + date option" where
  "date_from_iso s =
     (if \<not> truthy s then Inr None
      else (case iso_triple (the s) of
              None \<Rightarrow> Inl ValueError
            | Some (y, m, d) \<Rightarrow>
                (case mk_date y m d of None \<Rightarrow> Inl ValueError | Some dt \<Rightarrow> Inr (Some dt))))"

text \<open>
  The order of two date texts: that of their integer triples. It is defined for every text
  \<open>y-m-d\<close>, also one that names no day of the calendar.
\<close>

definition iso_le :: "string \<Rightarrow> string \<Rightarrow> bool" where
  "iso_le s t = (case (iso_triple s, iso_triple t) of
     (Some a, Some b) \<Rightarrow> date_le a b | _ \<Rightarrow> False)"

text \<open>\<open>start_date <= end_date\<close> for an entry that has both.\<close>

definition ordered :: "entry \<Rightarrow> bool" where
  "ordered e = (case (start_date e, end_date e) of
     (Some s, Some t) \<Rightarrow> iso_le s t | _ \<Rightarrow> True)"

section \<open>Link classifier of the in-progress calendar\<close>

definition STATEMENT_HTML_RE :: rx where
  "STATEMENT_HTML_RE = seqs [Lit ''/newsevents/pressreleases/monetary'', Rep Digit 8 (Some 8),
     Opt (Cls (Range CHR ''a'' CHR ''z'')), Lit ''.htm'', Eol]"

definition IMPL_NOTE_RE :: rx where
  "IMPL_NOTE_RE = seqs [Lit ''/newsevents/pressreleases/monetary'', Rep Digit 8 (Some 8),
     Lit ''a1.htm'', Eol]"

definition MINUTES_HTML_RE :: rx where
  "MINUTES_HTML_RE = seqs [Lit ''/monetarypolicy/'', Rep AnyChar 0 None, Lit ''minutes'',
     Rep AnyChar 0 None, Rep Digit 4 (Some 4), Rep AnyChar 0 None, Lit ''.htm'', Eol]"

definition PRESSCONF_HTML_RE :: rx where
  "PRESSCONF_HTML_RE = seqs [Lit ''/monetarypolicy/fomcpresconf'', Rep Digit 8 (Some 8),
     Lit ''.htm'', Eol]"

definition PRESS_DATE_RE :: rx where
  "PRESS_DATE_RE = Seq (Lit ''monetary'') (Grp ''1'' (Rep Digit 8 (Some 8)))"

definition found :: "bool \<Rightarrow> rx \<Rightarrow> string \<Rightarrow> bool" where
  "found ic r s = (re_search ic r s \<noteq> None)"

text \<open>
  An anchor as the parsers read it: the \<open>href\<close> attribute as written, and the label
  \<open>a.get_text(" ", strip=True)\<close>.
\<close>

record anchor =
  href :: string
  label :: string

text \<open>
  \<open>_abs_url\<close> of the in-progress calendar. \<open>urljoin\<close> of the standard library is a parameter
  \<open>uj\<close>; it is reached only for a link that is neither absolute nor rooted.
\<close>

definition abs_url :: "(string \<Rightarrow> string \<Rightarrow> string) \<Rightarrow> string \<Rightarrow> string option" where
  "abs_url uj h =
     (if h = [] then None
      else if startswith h ''http://'' \<or> startswith h ''https://'' then Some h
      else if startswith h ''/'' then Some (BASE_URL @ h)
      else Some (uj CURRENT_CALENDAR_URL h))"

record links =
  l_statement :: "string option"
  l_minutes :: "string option"
  l_press :: "string option"

definition no_links :: links where
  "no_links = \<lparr>l_statement = None, l_minutes = None, l_press = None\<rparr>"

definition collect_step :: "(string \<Rightarrow> string \<Rightarrow> string) \<Rightarrow> links \<times> bool \<Rightarrow> anchor \<Rightarrow> links \<times> bool" where
  "collect_step uj acc a =
     (let h = py_strip (href a);
          abs_href = abs_url uj h;
          ls = fst acc;
          ls' = (if found True STATEMENT_HTML_RE h \<and> \<not> found True IMPL_NOTE_RE h
                   then ls\<lparr>l_statement := abs_href\<rparr>
                 else if found True MINUTES_HTML_RE h then ls\<lparr>l_minutes := abs_href\<rparr>
                 else if found True PRESSCONF_HTML_RE h then ls\<lparr>l_press := abs_href\<rparr>
                 else ls)
      in (ls', snd acc \<or> found True (Lit ''Projection'') (label a)))"

definition collect_links :: "(string \<Rightarrow> string \<Rightarrow> string) \<Rightarrow> anchor list \<Rightarrow> links \<times> bool" where
  "collect_links uj as = foldl (collect_step uj) (no_links, False) as"

text \<open>\<open>_extract_press_date_from_url\<close>: a date that cannot be built is \<open>None\<close>, by the \<open>except\<close>.\<close>

definition extract_press_date_from_url :: "string option \<Rightarrow> date option" where
  "extract_press_date_from_url url =
     (if \<not> truthy url then None
      else (case re_search True PRESS_DATE_RE (the url) of
              None \<Rightarrow> None
            | Some m \<Rightarrow>
                (case group m ''1'' of
                   None \<Rightarrow> None
                 | Some ds \<Rightarrow>
                     (case (py_int (take 4 ds), py_int (take 2 (drop 4 ds)), py_int (take 2 (drop 6 ds))) of
                        (Some y, Some mo, Some d) \<Rightarrow> mk_date y mo d
                      | _ \<Rightarrow> None))))"

section \<open>The in-progress calendar\<close>

text \<open>
  The document tree is the work of the HTML library; a candidate container is given by what
  the extraction reads from it:
  \<^item> \<open>c_prefix\<close>: the text \<open>_extract_date_prefix(c)\<close>;
  \<^item> \<open>c_prev_month\<close>: the token \<open>_nearest_prev_month_token(c)\<close>, if any;
  \<^item> \<open>c_heading_year\<close>: the year \<open>_nearest_year_heading(c)\<close>, if any;
  \<^item> \<open>c_anchors\<close>: the anchors \<open>c.find_all("a", href=True)\<close>, in document order.
\<close>

record container =
  c_prefix :: string
  c_prev_month :: "string option"
  c_heading_year :: "int option"
  c_anchors :: "anchor list"

definition ensure_month_prefix :: "string \<Rightarrow> string option \<Rightarrow> string" where
  "ensure_month_prefix date_prefix prev_month =
     (if found True MONTH_RE date_prefix then date_prefix
      else if found False (seqs [WordB, Rep Digit 1 (Some 2), WordB]) date_prefix
              \<and> truthy prev_month
           then py_strip (the prev_month @ '' '' @ date_prefix)
      else date_prefix)"

text \<open>
  The contextual year: the heading's, else the single year named by the links of the
  container. The text matched by \<open>YEAR_IN_HREF\<close> is four digits, so \<open>int\<close> cannot fail.
\<close>

definition href_years :: "anchor list \<Rightarrow> int list" where
  "href_years as = remdups (concat (map (\<lambda>a.
     case re_search False YEAR_RE (href a) of
       None \<Rightarrow> [] | Some m \<Rightarrow> [int (nat_of_digits (matched m))]) as))"

definition falsy_year :: "int option \<Rightarrow> bool" where
  "falsy_year y = (y = None \<or> y = Some 0)"

definition resolve_year :: "container \<Rightarrow> int option" where
  "resolve_year c =
     (let y = (if falsy_year (c_heading_year c)
               then (case href_years (c_anchors c) of [v] \<Rightarrow> Some v | _ \<Rightarrow> c_heading_year c)
               else c_heading_year c)
      in if falsy_year y then None else y)"

definition date_prefix_of :: "container \<Rightarrow> string" where
  "date_prefix_of c = ensure_month_prefix (c_prefix c) (c_prev_month c)"

definition links_of :: "(string \<Rightarrow> string \<Rightarrow> string) \<Rightarrow> container \<Rightarrow> links" where
  "links_of uj c = fst (collect_links uj (c_anchors c))"

definition has_proj_of :: "(string \<Rightarrow> string \<Rightarrow> string) \<Rightarrow> container \<Rightarrow> bool" where
  "has_proj_of uj c = snd (collect_links uj (c_anchors c))"

definition current_entry :: "int \<Rightarrow> parsed \<Rightarrow> links \<Rightarrow> entry" where
  "current_entry yr p ls =
     \<lparr>year = yr, start_date = p_start p, end_date = p_end p, meeting_type = p_type p,
      is_cancelled = p_cancelled p, has_sep_projections = p_sep p,
      statement_url_html = l_statement ls, minutes_url_html = l_minutes ls,
      press_conference_url_html = l_press ls, source_url = CURRENT_CALENDAR_URL\<rparr>"

text \<open>
  The body of the loop over the candidates up to the key: \<open>Inr None\<close> is a \<open>continue\<close>,
  \<open>Inl\<close> an exception that leaves the function, \<open>Inr (Some (key, record))\<close> the record
  that the container brings to \<open>records\<close>.
\<close>

definition derive :: "(string \<Rightarrow> string \<Rightarrow> string) \<Rightarrow> container \<Rightarrow> error + (key \<times> entry) option" where
  "derive uj c =
     (if date_prefix_of c = [] \<or> \<not> found True MONTH_RE (date_prefix_of c) then Inr None
      else (case resolve_year c of
              None \<Rightarrow> Inr None
            | Some yr \<Rightarrow>
                ebind (parse_dates_and_flags yr (date_prefix_of c) (has_proj_of uj c)) (\<lambda>p.
                  if \<not> truthy (p_start p) then Inr None
                  else if p_type p = Scheduled \<and> \<not> p_cancelled p
                          \<and> \<not> truthy (l_statement (links_of uj c))
                    then Inr None
                  else
                    (let press_dt = (if truthy (l_statement (links_of uj c))
                                     then extract_press_date_from_url (l_statement (links_of uj c))
                                     else None)
                     in ebind (date_from_iso (p_end p)) (\<lambda>end_dt.
                          if truthy (l_statement (links_of uj c)) \<and> press_dt \<noteq> None
                             \<and> end_dt \<noteq> None \<and> press_dt \<noteq> end_dt
                          then Inr None
                          else Inr (Some ((yr, p_start p, p_end p),
                                          current_entry yr p (links_of uj c))))))))"

text \<open>
  \<open>records\<close> is a dictionary that keeps the order of insertion: an association list with
  one pair per key. A new key is appended; for a key already there, each link of the
  record that is still unset is taken from the new record.
\<close>

definition fill_links :: "entry \<Rightarrow> entry \<Rightarrow> entry" where
  "fill_links old new = old
     \<lparr>statement_url_html :=
        (if truthy (statement_url_html old) then statement_url_html old else statement_url_html new),
      minutes_url_html :=
        (if truthy (minutes_url_html old) then minutes_url_html old else minutes_url_html new),
      press_conference_url_html :=
        (if truthy (press_conference_url_html old) then press_conference_url_html old
         else press_conference_url_html new)\<rparr>"

definition upsert :: "key \<Rightarrow> entry \<Rightarrow> (key \<times> entry) list \<Rightarrow> (key \<times> entry) list" where
  "upsert k new records =
     (if k \<notin> fst ` set records then records @ [(k, new)]
      else map (\<lambda>(k', e). if k' = k then (k', fill_links e new) else (k', e)) records)"

fun assemble :: "(string \<Rightarrow> string \<Rightarrow> string) \<Rightarrow> container list \<Rightarrow> (key \<times> entry) list
    \<Rightarrow> error + (key \<times> entry) list" where
  "assemble uj [] records = Inr records"
| "assemble uj (c # cs) records =
     (case derive uj c of
        Inl e \<Rightarrow> Inl e
      | Inr None \<Rightarrow> assemble uj cs records
      | Inr (Some (k, r)) \<Rightarrow> assemble uj cs (upsert k r records))"

text \<open>
  \<open>parse_current_calendar\<close>, from the candidate containers in the order in which the loop
  visits them. That order is the iteration order of a Python \<open>set\<close> of tags, which is not
  fixed by the page: the list argument is one such order.
\<close>

definition parse_current_calendar :: "(string \<Rightarrow> string \<Rightarrow> string) \<Rightarrow> container list \<Rightarrow> error + entry list" where
  "parse_current_calendar uj candidates =
     ebind (assemble uj candidates []) (\<lambda>records. Inr (map snd records))"

text \<open>The records that the candidates bring, one for each container that is not skipped.\<close>

definition derived :: "(string \<Rightarrow> string \<Rightarrow> string) \<Rightarrow> container list \<Rightarrow> (key \<times> entry) list" where
  "derived uj cs = concat (map (\<lambda>c. case derive uj c of Inr (Some kr) \<Rightarrow> [kr] | _ \<Rightarrow> []) cs)"

section \<open>The future-only calendar\<close>

text \<open>
  \<open>_DAY_RANGE_ONLY_RE\<close> and \<open>_DAY_SINGLE_ONLY_RE\<close>. The class between the days is written in
  the source as a hyphen followed by three other characters, of which only the code point
  226 is a character of the model.
\<close>

definition DAY_RANGE_ONLY_RE :: rx where
  "DAY_RANGE_ONLY_RE = seqs [Bol, Grp ''1'' (Rep Digit 1 (Some 2)), Rep Space 0 None,
     Cls (OneOf [CHR ''-'', CHR 0xE2]), Rep Space 0 None, Grp ''2'' (Rep Digit 1 (Some 2)),
     Opt (Lit ''*''), Eol]"

definition DAY_SINGLE_ONLY_RE :: rx where
  "DAY_SINGLE_ONLY_RE = seqs [Bol, Grp ''1'' (Rep Digit 1 (Some 2)), Opt (Lit ''*''), Eol]"

text \<open>
  A row \<open>div.fomc-meeting\<close> of a year section, by the texts of its month and date columns
  (\<open>None\<close> for a column that the row does not have).
\<close>

record row =
  r_month :: "string option"
  r_date :: "string option"

text \<open>One row of \<open>_parse_with_dom\<close>: \<open>Inr None\<close> when the row adds nothing.\<close>

definition parse_row :: "int \<Rightarrow> row \<Rightarrow> error + (string \<times> string \<times> bool) option" where
  "parse_row yr r =
     (case (r_month r, r_date r) of
        (Some month_text, Some date_text) \<Rightarrow>
          if month_text = [] \<or> date_text = [] then Inr None
          else (case re_search True MONTH_RE month_text of
                  None \<Rightarrow> Inr None
                | Some mmon \<Rightarrow>
                    (case MONTH_TO_NUM (lower (matched mmon)) of
                       None \<Rightarrow> Inr None
                     | Some month_num \<Rightarrow>
                         (case re_match False DAY_RANGE_ONLY_RE date_text of
                            Some mrange \<Rightarrow>
                              ebind (group_int mrange ''1'') (\<lambda>d1.
                              ebind (group_int mrange ''2'') (\<lambda>d2.
                                Inr (Some (fmt_date yr month_num d1, fmt_date yr month_num d2,
                                           str_in ''*'' date_text))))
                          | None \<Rightarrow>
                              (case re_match False DAY_SINGLE_ONLY_RE date_text of
                                 Some msingle \<Rightarrow>
                                   ebind (group_int msingle ''1'') (\<lambda>d1.
                                     Inr (Some (fmt_date yr month_num d1, fmt_date yr month_num d1,
                                                str_in ''*'' date_text)))
                               | None \<Rightarrow> Inr None))))
      | _ \<Rightarrow> Inr None)"

fun parse_with_dom :: "int \<Rightarrow> row list \<Rightarrow> error + (string \<times> string \<times> bool) list" where
  "parse_with_dom yr [] = Inr []"
| "parse_with_dom yr (r # rs) =
     ebind (parse_row yr r) (\<lambda>x.
     ebind (parse_with_dom yr rs) (\<lambda>xs.
       Inr (case x of None \<Rightarrow> xs | Some t \<Rightarrow> t # xs)))"

text \<open>
  \<open>date.fromisoformat\<close> on a text of the form \<open>YYYY-MM-DD\<close>; any other text, and a date that
  does not exist, is the \<open>ValueError\<close> that the caller catches.
\<close>

definition fromisoformat :: "string \<Rightarrow> date option" where
  "fromisoformat s =
     (if length s = 10 \<and> s ! 4 = CHR ''-'' \<and> s ! 7 = CHR ''-''
         \<and> list_all is_digit (take 4 s) \<and> list_all is_digit (take 2 (drop 5 s))
         \<and> list_all is_digit (drop 8 s)
      then mk_date (int (nat_of_digits (take 4 s))) (int (nat_of_digits (take 2 (drop 5 s))))
                   (int (nat_of_digits (drop 8 s)))
      else None)"

definition future_entry :: "int \<Rightarrow> string \<Rightarrow> string \<Rightarrow> bool \<Rightarrow> entry" where
  "future_entry yr start end star =
     \<lparr>year = yr, start_date = Some start, end_date = Some end, meeting_type = Scheduled,
      is_cancelled = False, has_sep_projections = star, statement_url_html = None,
      minutes_url_html = None, press_conference_url_html = None,
      source_url = CURRENT_CALENDAR_URL\<rparr>"

text \<open>The inner loop over the candidates of one year; the state is \<open>(seen, out)\<close>.\<close>

fun future_rows :: "date \<Rightarrow> int \<Rightarrow> (string \<times> string \<times> bool) list \<Rightarrow> key list \<times> entry list
    \<Rightarrow> key list \<times> entry list" where
  "future_rows now yr [] st = st"
| "future_rows now yr ((start, end, star) # cands) (seen, out) =
     (case fromisoformat end of
        None \<Rightarrow> future_rows now yr cands (seen, out)
      | Some end_dt \<Rightarrow>
          if date_lt end_dt now then future_rows now yr cands (seen, out)
          else if (yr, Some start, Some end) \<in> set seen then future_rows now yr cands (seen, out)
          else future_rows now yr cands
                 (seen @ [(yr, Some start, Some end)], out @ [future_entry yr start end star]))"

fun future_sections :: "date \<Rightarrow> (int \<times> row list) list \<Rightarrow> key list \<times> entry list
    \<Rightarrow> error + key list \<times> entry list" where
  "future_sections now [] st = Inr st"
| "future_sections now ((yr, section) # rest) st =
     ebind (parse_with_dom yr section) (\<lambda>candidates.
       future_sections now rest (future_rows now yr candidates st))"

text \<open>
  \<open>parse_future_calendar\<close>, from today's date and the year sections of the page
  (\<open>_iter_year_sections\<close>: the year of each heading and the rows under it).
\<close>

definition parse_future_calendar :: "date \<Rightarrow> (int \<times> row list) list \<Rightarrow> error + entry list" where
  "parse_future_calendar now sections =
     ebind (future_sections now sections ([], [])) (\<lambda>st. Inr (snd st))"

section \<open>The historical year pages\<close>

definition PRESS_RE :: rx where
  "PRESS_RE = Alt (seqs [Lit ''press'', Rep Space 0 None, Lit ''conference'']) (Lit ''press'')"

definition PROJECTION_RE :: rx where
  "PROJECTION_RE = Grp ''1'' (alts [seqs [WordB, Lit ''SEP'', WordB], Lit ''SEP:'',
     Lit ''summary of economic projections'', Lit ''individual projections''])"

definition abs_url_hist :: "string \<Rightarrow> string option" where
  "abs_url_hist h =
     (if h = [] then None
      else if startswith h ''http://'' \<or> startswith h ''https://'' then Some h
      else if startswith h ''/'' then Some (BASE_URL @ h)
      else Some h)"

definition collect_step_hist :: "links \<times> bool \<Rightarrow> anchor \<Rightarrow> links \<times> bool" where
  "collect_step_hist acc a =
     (let h = abs_url_hist (py_strip (href a));
          l = lower (label a);
          ls = fst acc;
          ls' = (if found True (Lit ''statement'') l then ls\<lparr>l_statement := h\<rparr>
                 else if found True (Lit ''minutes'') l then ls\<lparr>l_minutes := h\<rparr>
                 else if found True PRESS_RE l then ls\<lparr>l_press := h\<rparr>
                 else ls)
      in (ls', snd acc \<or> found True PROJECTION_RE (label a)
                       \<or> (truthy h \<and> found True (Lit ''fomcproj'') (the h))))"

definition collect_links_hist :: "anchor list \<Rightarrow> links \<times> bool" where
  "collect_links_hist as = foldl collect_step_hist (no_links, False) as"

text \<open>The date patterns of \<open>_parse_dates_from_text\<close>: a trailing \<open>\*?\<close> before the last \<open>\b\<close>.\<close>

definition cross_month_rx_hist :: rx where
  "cross_month_rx_hist = seqs [WordB, Grp ''m1'' mon_pat, Lit ''/'', Grp ''m2'' mon_pat,
     Rep Space 1 None, day_grp ''d1'', dash_sep, day_grp ''d2'', Opt (Lit ''*''), WordB]"

definition same_month_rx_hist :: rx where
  "same_month_rx_hist = seqs [WordB, Grp ''m1'' mon_pat, Rep Space 1 None, day_grp ''d1'',
     dash_sep, day_grp ''d2'', Opt (Lit ''*''), WordB]"

definition single_day_rx_hist :: rx where
  "single_day_rx_hist = seqs [WordB, Grp ''m1'' mon_pat, Rep Space 1 None, day_grp ''d1'',
     Opt (Lit ''*''), WordB]"

text \<open>Any parenthetical, \<open>\((?:[^)]*)\)\<close>.\<close>

definition paren_rx :: rx where
  "paren_rx = seqs [Lit ''('', Rep (NoneOf '')'') 0 None, Lit '')'']"

text \<open>\<open>_parse_dates_from_text\<close>: start, end, the flag (always false), the meeting type.\<close>

definition parse_dates_from_text :: "int \<Rightarrow> string \<Rightarrow> error + (string option \<times> string option \<times> bool \<times> meeting_type)" where
  "parse_dates_from_text yr text =
     (let lraw = lower (py_strip (re_sub False (Rep Space 1 None) '' '' text));
          clean = py_strip (re_sub False (Rep Space 1 None) '' '' (re_sub False paren_rx [] text));
          mt = (if str_in ''notation vote'' lraw then NotationVote
                else if str_in ''unscheduled'' lraw then Unscheduled
                else Scheduled)
      in ebind (find_dates cross_month_rx_hist same_month_rx_hist single_day_rx_hist yr clean)
           (\<lambda>ds. Inr (map_option fst ds, map_option snd ds, False, mt)))"

text \<open>
  A year page, by what the two passes read from it.
  \<^item> For each anchor with an \<open>href\<close>, in document order: its label, the text
    \<open>_augment_with_prev_heading_text(_container_for_anchor(a))\<close>, and the anchors of that
    container.
  \<^item> For each heading \<open>h1\<close>..\<open>h6\<close>, in document order: its text, and the anchors of the
    sibling tags that follow it up to the next heading.
\<close>

record page_anchor =
  pa_href :: string
  pa_label :: string
  pa_text :: string
  pa_container_anchors :: "anchor list"

record heading =
  h_text :: string
  h_anchors :: "anchor list"

record page =
  pg_anchors :: "page_anchor list"
  pg_headings :: "heading list"

definition text_cancelled :: "string \<Rightarrow> bool" where
  "text_cancelled text = (str_in ''cancelled'' (lower text) \<or> str_in ''canceled'' (lower text))"

definition hist_entry :: "int \<Rightarrow> string \<Rightarrow> string option \<Rightarrow> string option \<Rightarrow> meeting_type \<Rightarrow> bool
    \<Rightarrow> links \<times> bool \<Rightarrow> entry" where
  "hist_entry yr src sd ed mt canc lk =
     \<lparr>year = yr, start_date = sd, end_date = ed, meeting_type = mt, is_cancelled = canc,
      has_sep_projections = snd lk, statement_url_html = l_statement (fst lk),
      minutes_url_html = l_minutes (fst lk), press_conference_url_html = l_press (fst lk),
      source_url = src\<rparr>"

text \<open>
  The tail shared by the bodies of both passes: parse the dates of \<open>text\<close>, skip without a
  start date or with a key already seen, else append the entry. The state is
  \<open>(seen, results)\<close>.
\<close>

definition hist_add :: "int \<Rightarrow> string \<Rightarrow> string \<Rightarrow> links \<times> bool \<Rightarrow> key list \<times> entry list
    \<Rightarrow> error + key list \<times> entry list" where
  "hist_add yr src text lk st =
     ebind (parse_dates_from_text yr text) (\<lambda>(sd, ed, has_sep, mt).
       if \<not> truthy sd then Inr st
       else if (yr, sd, ed) \<in> set (fst st) then Inr st
       else Inr (fst st @ [(yr, sd, ed)],
                 snd st @ [hist_entry yr src sd ed mt (text_cancelled text) lk]))"

fun pass1 :: "int \<Rightarrow> string \<Rightarrow> page_anchor list \<Rightarrow> key list \<times> entry list
    \<Rightarrow> error + key list \<times> entry list" where
  "pass1 yr src [] st = Inr st"
| "pass1 yr src (a # as) st =
     (if \<not> (found True (Lit ''statement'') (lower (pa_label a))
            \<or> found True (Lit ''minutes'') (lower (pa_label a)))
      then pass1 yr src as st
      else ebind (hist_add yr src (pa_text a) (collect_links_hist (pa_container_anchors a)) st)
             (pass1 yr src as))"

fun pass2 :: "int \<Rightarrow> string \<Rightarrow> heading list \<Rightarrow> key list \<times> entry list
    \<Rightarrow> error + key list \<times> entry list" where
  "pass2 yr src [] st = Inr st"
| "pass2 yr src (h # hs) st =
     (if h_text h = [] then pass2 yr src hs st
      else ebind (hist_add yr src (h_text h) (collect_links_hist (h_anchors h)) st)
             (pass2 yr src hs))"

definition parse_year_page :: "int \<Rightarrow> page \<Rightarrow> string \<Rightarrow> error + entry list" where
  "parse_year_page yr pg src =
     ebind (pass1 yr src (pg_anchors pg) ([], [])) (\<lambda>st1.
     ebind (pass2 yr src (pg_headings pg) st1) (\<lambda>st2. Inr (snd st2)))"

section \<open>The historical pipeline\<close>

definition HISTORICAL_INDEX_URL :: string where
  "HISTORICAL_INDEX_URL = ''https://www.federalreserve.gov/monetarypolicy/fomc_historical_year.htm''"

text \<open>The links of the index page; \<open>years\<close> is the optional argument of \<open>parse_historical\<close>.\<close>

definition index_links :: "int list option \<Rightarrow> page_anchor list \<Rightarrow> (int \<times> string) list" where
  "index_links years as = concat (map (\<lambda>a.
     case re_search False YEAR_RE (pa_label a) of
       None \<Rightarrow> []
     | Some m \<Rightarrow>
         (let y = int (nat_of_digits (matched m))
          in if years \<noteq> None \<and> years \<noteq> Some [] \<and> y \<notin> set (the years) then []
             else (let h = py_strip (pa_href a)
                   in if h = [] then []
                      else [(y, if startswith h ''http'' then h else BASE_URL @ h)]))) as)"

definition direct_links :: "int \<Rightarrow> int list option \<Rightarrow> (int \<times> string) list" where
  "direct_links this_year years =
     map (\<lambda>y. (y, BASE_URL @ ''/monetarypolicy/fomccalendars'' @ py_str y @ ''.htm''))
         (case years of None \<Rightarrow> [2010 .. this_year] | Some ys \<Rightarrow> ys)"

fun year_pages :: "(string \<Rightarrow> error + page) \<Rightarrow> (int \<times> string) list \<Rightarrow> error + entry list" where
  "year_pages fetch_html [] = Inr []"
| "year_pages fetch_html ((y, url) # rest) =
     (case fetch_html url of
        Inl e \<Rightarrow> year_pages fetch_html rest
      | Inr html \<Rightarrow>
          ebind (parse_year_page y html url) (\<lambda>es.
          ebind (year_pages fetch_html rest) (\<lambda>more. Inr (es @ more))))"

text \<open>
  \<open>parse_historical\<close>. The fetcher is a parameter that gives the page behind a URL or
  fails; \<open>this_year\<close> is \<open>date.today().year\<close>.
\<close>

definition parse_historical :: "(string \<Rightarrow> error + page) \<Rightarrow> int \<Rightarrow> int list option \<Rightarrow> error + entry list" where
  "parse_historical fetch_html this_year years =
     ebind (fetch_html HISTORICAL_INDEX_URL) (\<lambda>index.
       year_pages fetch_html
         (sort_key fst (index_links years (pg_anchors index) @ direct_links this_year years)))"

section \<open>Example pages\<close>

text \<open>
  Containers of pages of the in-progress calendar, each a paragraph under the heading
  \<open><h4>2024 FOMC Meetings</h4>\<close>. No link of the examples is relative, so the function
  that stands for \<open>urljoin\<close> is never applied. Every date prefix names its month, so the
  month token before the container is not read and is left \<open>None\<close>. Without an anchor
  labelled \<open>Statement\<close> the date prefix is the whole text of the paragraph, the label of
  its link included.
\<close>

definition no_join :: "string \<Rightarrow> string \<Rightarrow> string" where
  "no_join base h = h"

definition statement_anchor :: anchor where
  "statement_anchor = \<lparr>href = ''/newsevents/pressreleases/monetary20240130a.htm'', label = ''Statement''\<rparr>"

definition minutes_anchor :: anchor where
  "minutes_anchor = \<lparr>href = ''/monetarypolicy/fomcminutes20240130.htm'', label = ''Minutes''\<rparr>"

definition statement_url :: string where
  "statement_url = ''https://www.federalreserve.gov/newsevents/pressreleases/monetary20240130a.htm''"

definition minutes_url :: string where
  "minutes_url = ''https://www.federalreserve.gov/monetarypolicy/fomcminutes20240130.htm''"

definition in_2024 :: "string \<Rightarrow> anchor list \<Rightarrow> container" where
  "in_2024 text as = \<lparr>c_prefix = text, c_prev_month = None, c_heading_year = Some 2024, c_anchors = as\<rparr>"

text \<open>\<open><p>Jan 30 <a href="/newsevents/pressreleases/monetary20240130a.htm">Statement</a></p>\<close>\<close>

definition c_scheduled :: container where
  "c_scheduled = in_2024 ''Jan 30'' [statement_anchor]"

text \<open>\<open><p>Jan 30 (unscheduled) <a href="/newsevents/pressreleases/monetary20240130a.htm">Statement</a></p>\<close>\<close>

definition c_unscheduled :: container where
  "c_unscheduled = in_2024 ''Jan 30 (unscheduled)'' [statement_anchor]"

text \<open>\<open><p>Jan 30 <a href="/monetarypolicy/fomcminutes20240130.htm">Minutes</a></p>\<close>\<close>

definition c_minutes :: container where
  "c_minutes = in_2024 ''Jan 30 Minutes'' [minutes_anchor]"

text \<open>\<open><p>Jan 30 (unscheduled) <a href="/monetarypolicy/fomcminutes20240130.htm">Minutes</a></p>\<close>\<close>

definition c_unscheduled_minutes :: container where
  "c_unscheduled_minutes = in_2024 ''Jan 30 (unscheduled) Minutes'' [minutes_anchor]"

text \<open>\<open><p>Feb 30 (unscheduled)</p>\<close>\<close>

definition c_feb30 :: container where
  "c_feb30 = in_2024 ''Feb 30 (unscheduled)'' []"

text \<open>\<open><p>Jan 31 <a href="/newsevents/pressreleases/monetary20240130a.htm">Statement</a></p>\<close>\<close>

definition c_mismatch :: container where
  "c_mismatch = in_2024 ''Jan 31'' [statement_anchor]"

text \<open>\<open><p>Jan 30 cancelled <a href="/newsevents/pressreleases/monetary20240130a.htm">Statement</a></p>\<close>\<close>

definition c_cancelled_plain :: container where
  "c_cancelled_plain = in_2024 ''Jan 30 cancelled'' [statement_anchor]"

text \<open>\<open><p>Jan 20-5 (unscheduled)</p>\<close>\<close>

definition c_reversed :: container where
  "c_reversed = in_2024 ''Jan 20-5 (unscheduled)'' []"

definition parsed_day :: "string \<Rightarrow> meeting_type \<Rightarrow> parsed" where
  "parsed_day d mt = \<lparr>p_start = Some d, p_end = Some d, p_type = mt, p_cancelled = False, p_sep = False\<rparr>"

definition links_statement_only :: links where
  "links_statement_only = \<lparr>l_statement = Some statement_url, l_minutes = None, l_press = None\<rparr>"

definition links_minutes_only :: links where
  "links_minutes_only = \<lparr>l_statement = None, l_minutes = Some minutes_url, l_press = None\<rparr>"

definition key_jan30 :: key where
  "key_jan30 = (2024, Some ''2024-01-30'', Some ''2024-01-30'')"

text \<open>
  A historical index with one link, \<open><a href="/monetarypolicy/fomchistorical2015.htm">2015</a>\<close>,
  and a year page \<open><h5>Jan 27-28 Meeting</h5>\<close> that the site serves both at that address
  and at \<open>/monetarypolicy/fomccalendars2015.htm\<close>.
\<close>

definition index_page :: page where
  "index_page = \<lparr>pg_anchors = [\<lparr>pa_href = ''/monetarypolicy/fomchistorical2015.htm'',
     pa_label = ''2015'', pa_text = ''2015'', pa_container_anchors = []\<rparr>], pg_headings = []\<rparr>"

definition meeting_page :: page where
  "meeting_page = \<lparr>pg_anchors = [], pg_headings = [\<lparr>h_text = ''Jan 27-28 Meeting'', h_anchors = []\<rparr>]\<rparr>"

definition site :: "string \<Rightarrow> error + page" where
  "site url =
     (if url = HISTORICAL_INDEX_URL then Inr index_page
      else if url = ''https://www.federalreserve.gov/monetarypolicy/fomchistorical2015.htm''
              \<or> url = ''https://www.federalreserve.gov/monetarypolicy/fomccalendars2015.htm''
        then Inr meeting_page
      else Inl TransportError)"

definition key_jan27 :: key where
  "key_jan27 = (2015, Some ''2015-01-27'', Some ''2015-01-28'')"

text \<open>
  A year page whose body is two paragraphs for one meeting,
  \<open><p>Jan 27-28 Meeting <a href="/monetarypolicy/fomcminutes20150128.htm">Minutes</a></p>\<close> and
  \<open><p>Jan 27-28 Meeting <a href="/newsevents/pressreleases/monetary20150128a.htm">Statement</a></p>\<close>.
  The text of the second is preceded by that of its previous sibling.
\<close>

definition two_paragraphs :: page where
  "two_paragraphs = \<lparr>pg_anchors =
     [\<lparr>pa_href = ''/monetarypolicy/fomcminutes20150128.htm'', pa_label = ''Minutes'',
       pa_text = ''Jan 27-28 Meeting Minutes'',
       pa_container_anchors = [\<lparr>href = ''/monetarypolicy/fomcminutes20150128.htm'', label = ''Minutes''\<rparr>]\<rparr>,
      \<lparr>pa_href = ''/newsevents/pressreleases/monetary20150128a.htm'', pa_label = ''Statement'',
       pa_text = ''Jan 27-28 Meeting Minutes Jan 27-28 Meeting Statement'',
       pa_container_anchors = [\<lparr>href = ''/newsevents/pressreleases/monetary20150128a.htm'', label = ''Statement''\<rparr>]\<rparr>],
     pg_headings = []\<rparr>"

text \<open>A year page that is the heading \<open><h5>Feb 30 (unscheduled)</h5>\<close>.\<close>

definition feb30_page :: page where
  "feb30_page = \<lparr>pg_anchors = [], pg_headings = [\<lparr>h_text = ''Feb 30 (unscheduled)'', h_anchors = []\<rparr>]\<rparr>"

text \<open>
  A section \<open>2025 FOMC Meetings\<close> of the future calendar with the rows \<open>July 29-30\<close>,
  \<open>May 6-7\<close> and \<open>Sept 17-16*\<close>, read on 1 June 2025.
\<close>

definition future_page :: "(int \<times> row list) list" where
  "future_page = [(2025, [\<lparr>r_month = Some ''July'', r_date = Some ''29-30''\<rparr>,
                          \<lparr>r_month = Some ''May'', r_date = Some ''6-7''\<rparr>,
                          \<lparr>r_month = Some ''Sept'', r_date = Some ''17-16*''\<rparr>])]"

text \<open>The matches of the cross-month pattern in \<open>Dec/Jan 31-1\<close> and of the range pattern in \<open>Jan 30-31\<close>.\<close>

definition dec_jan_match :: rx_match where
  "dec_jan_match = \<lparr>before = [], matched = ''Dec/Jan 31-1'',
     groups = [(''d2'', ''1''), (''d1'', ''31''), (''m2'', ''Jan''), (''m1'', ''Dec'')], after = []\<rparr>"

definition jan_range_match :: rx_match where
  "jan_range_match = \<lparr>before = [], matched = ''Jan 30-31'',
     groups = [(''d2'', ''31''), (''d1'', ''30''), (''m1'', ''Jan'')], after = []\<rparr>"

section \<open>Invariants of the assemblers\<close>

text \<open>The dictionary \<open>records\<close>: one pair per key, each record under its own key.\<close>

definition keyed :: "(key \<times> entry) list \<Rightarrow> bool" where
  "keyed recs = (distinct (map fst recs) \<and> (\<forall>kr \<in> set recs. key_of (snd kr) = fst kr))"

text \<open>The state \<open>(seen, out)\<close> of the list-based pipelines: \<open>seen\<close> holds the keys of \<open>out\<close>, once each.\<close>

definition tracked :: "key list \<times> entry list \<Rightarrow> bool" where
  "tracked st = (fst st = map key_of (snd st) \<and> distinct (fst st))"

text \<open>An entry as the future-only pipeline builds it.\<close>

definition bare :: "entry \<Rightarrow> bool" where
  "bare e = (meeting_type e = Scheduled \<and> \<not> is_cancelled e \<and> statement_url_html e = None
     \<and> minutes_url_html e = None \<and> press_conference_url_html e = None)"

section \<open>The assembler of the in-progress calendar\<close>


lemma map_fst_upsert:
  "map fst (upsert k r recs) = (if k \<in> fst ` set recs then map fst recs else map fst recs @ [k])"
  by (simp add: upsert_def comp_def case_prod_beta if_distrib[of fst])

lemma key_of_fill_links [simp]: "key_of (fill_links old new) = key_of old"
  by (simp add: key_of_def fill_links_def)

lemma derive_key:
  assumes "derive uj c = Inr (Some (k, r))"
  shows "key_of r = k"
  using assms
  by (auto simp: derive_def ebind_def Let_def key_of_def current_entry_def
      split: if_splits option.splits sum.splits)

lemma keyed_upsert:
  assumes "keyed recs" and "key_of r = k"
  shows "keyed (upsert k r recs)"
proof -
  have d: "distinct (map fst (upsert k r recs))"
    using assms(1) by (auto simp: map_fst_upsert keyed_def)
  have "\<forall>kr \<in> set (upsert k r recs). key_of (snd kr) = fst kr"
    using assms by (auto simp: upsert_def keyed_def split: if_splits)
  with d show ?thesis by (simp add: keyed_def)
qed

lemma keyed_assemble:
  "keyed recs \<Longrightarrow> assemble uj cs recs = Inr out \<Longrightarrow> keyed out"
proof (induction cs arbitrary: recs)
  case Nil then show ?case by simp
next
  case (Cons c cs)
  show ?case
  proof (cases "derive uj c")
    case (Inl e) with Cons.prems show ?thesis by simp
  next
    case (Inr o1)
    show ?thesis
    proof (cases o1)
      case None with Inr Cons show ?thesis by simp
    next
      case (Some kr)
      obtain k r where kr: "kr = (k, r)" by (cases kr)
      from Cons.prems Inr Some kr have a: "assemble uj cs (upsert k r recs) = Inr out" by simp
      from Inr Some kr have "key_of r = k" by (auto dest: derive_key)
      with Cons.prems(1) have "keyed (upsert k r recs)" by (rule keyed_upsert)
      from Cons.IH[OF this a] show ?thesis .
    qed
  qed
qed

lemma keyed_distinct: "keyed recs \<Longrightarrow> distinct (map key_of (map snd recs))"
proof -
  assume k: "keyed recs"
  then have "\<forall>kr \<in> set recs. key_of (snd kr) = fst kr" by (simp add: keyed_def)
  then have eq: "map key_of (map snd recs) = map fst recs" by simp
  from k show ?thesis unfolding eq by (simp add: keyed_def)
qed

lemma tracked_distinct: "tracked st \<Longrightarrow> distinct (map key_of (snd st))"
  unfolding tracked_def by metis

lemma current_distinct:
  assumes "parse_current_calendar uj cs = Inr out"
  shows "distinct (map key_of out)"
proof -
  from assms obtain recs where a: "assemble uj cs [] = Inr recs" and o: "out = map snd recs"
    by (auto simp: parse_current_calendar_def ebind_def split: sum.splits)
  have "keyed []" by (simp add: keyed_def)
  from keyed_assemble[OF this a] show ?thesis unfolding o by (rule keyed_distinct)
qed

subsection \<open>The future-only calendar\<close>

lemma key_of_future_entry [simp]:
  "key_of (future_entry yr s e star) = (yr, Some s, Some e)"
  by (simp add: key_of_def future_entry_def)

lemma tracked_future_rows:
  "tracked st \<Longrightarrow> tracked (future_rows now yr cands st)"
proof (induction now yr cands st rule: future_rows.induct)
  case (1 now yr st) then show ?case by simp
next
  case (2 now yr start "end" star cands seen out)
  then show ?case by (auto simp: tracked_def split: option.splits)
qed

lemma tracked_future_sections:
  "tracked st \<Longrightarrow> future_sections now secs st = Inr st' \<Longrightarrow> tracked st'"
proof (induction now secs st rule: future_sections.induct)
  case (1 now st) then show ?case by simp
next
  case (2 now yr sec rest st)
  then show ?case
    by (auto simp: ebind_def split: sum.splits intro: tracked_future_rows)
qed

lemma future_distinct:
  assumes "parse_future_calendar now secs = Inr out"
  shows "distinct (map key_of out)"
proof -
  from assms obtain st where a: "future_sections now secs ([], []) = Inr st" and o: "out = snd st"
    by (auto simp: parse_future_calendar_def ebind_def split: sum.splits)
  have "tracked ([], [])" by (simp add: tracked_def)
  from tracked_future_sections[OF this a] show ?thesis unfolding o by (rule tracked_distinct)
qed

lemma bare_future_rows:
  "list_all bare (snd st) \<Longrightarrow> list_all bare (snd (future_rows now yr cands st))"
proof (induction now yr cands st rule: future_rows.induct)
  case (1 now yr st) then show ?case by simp
next
  case (2 now yr start "end" star cands seen out)
  then show ?case by (auto simp: bare_def future_entry_def split: option.splits)
qed

lemma bare_future_sections:
  "list_all bare (snd st) \<Longrightarrow> future_sections now secs st = Inr st' \<Longrightarrow> list_all bare (snd st')"
proof (induction now secs st rule: future_sections.induct)
  case (1 now st) then show ?case by simp
next
  case (2 now yr sec rest st)
  then show ?case
    by (auto simp: ebind_def split: sum.splits intro: bare_future_rows)
qed

subsection \<open>The historical year pages\<close>

lemma key_of_hist_entry [simp]:
  "key_of (hist_entry yr src sd ed mt canc lk) = (yr, sd, ed)"
  by (simp add: key_of_def hist_entry_def)

lemma tracked_hist_add:
  "tracked st \<Longrightarrow> hist_add yr src text lk st = Inr st' \<Longrightarrow> tracked st'"
  by (auto simp: hist_add_def ebind_def tracked_def split: sum.splits if_splits prod.splits)

lemma tracked_pass1:
  "tracked st \<Longrightarrow> pass1 yr src as st = Inr st' \<Longrightarrow> tracked st'"
proof (induction as arbitrary: st)
  case Nil then show ?case by simp
next
  case (Cons a as)
  then show ?case
    by (auto simp: ebind_def split: sum.splits if_splits dest: tracked_hist_add)
qed

lemma tracked_pass2:
  "tracked st \<Longrightarrow> pass2 yr src hs st = Inr st' \<Longrightarrow> tracked st'"
proof (induction hs arbitrary: st)
  case Nil then show ?case by simp
next
  case (Cons h hs)
  then show ?case
    by (auto simp: ebind_def split: sum.splits if_splits dest: tracked_hist_add)
qed

lemma year_page_distinct:
  assumes "parse_year_page yr pg src = Inr out"
  shows "distinct (map key_of out)"
proof -
  from assms obtain st1 st2 where a: "pass1 yr src (pg_anchors pg) ([], []) = Inr st1"
    and b: "pass2 yr src (pg_headings pg) st1 = Inr st2" and o: "out = snd st2"
    by (auto simp: parse_year_page_def ebind_def split: sum.splits)
  have "tracked ([], [])" by (simp add: tracked_def)
  from tracked_pass2[OF tracked_pass1[OF this a] b] show ?thesis
    unfolding o by (rule tracked_distinct)
qed

section \<open>Lemmas on the loop of the in-progress calendar\<close>

lemma assemble_skip:
  "derive uj c = Inr None \<Longrightarrow> assemble uj (cs1 @ c # cs2) recs = assemble uj (cs1 @ cs2) recs"
  by (induction cs1 arbitrary: recs) (auto split: sum.splits option.splits)

lemma current_skip:
  "derive uj c = Inr None \<Longrightarrow>
     parse_current_calendar uj (cs1 @ c # cs2) = parse_current_calendar uj (cs1 @ cs2)"
  by (simp add: parse_current_calendar_def assemble_skip)

lemma derive_gate:
  assumes "resolve_year c = Some yr"
    and "parse_dates_and_flags yr (date_prefix_of c) (has_proj_of uj c) = Inr p"
    and "p_type p = Scheduled" and "\<not> p_cancelled p"
    and "\<not> truthy (l_statement (links_of uj c))"
  shows "derive uj c = Inr None"
  using assms by (simp add: derive_def ebind_def)

lemma derive_cross_check:
  assumes "date_prefix_of c \<noteq> []" and "found True MONTH_RE (date_prefix_of c)"
    and "resolve_year c = Some yr"
    and "parse_dates_and_flags yr (date_prefix_of c) (has_proj_of uj c) = Inr p"
    and "truthy (p_start p)"
    and "truthy (l_statement (links_of uj c))"
    and "extract_press_date_from_url (l_statement (links_of uj c)) = Some pd"
    and "date_from_iso (p_end p) = Inr (Some ed)"
  shows "derive uj c = (if pd \<noteq> ed then Inr None
           else Inr (Some ((yr, p_start p, p_end p), current_entry yr p (links_of uj c))))"
  using assms by (cases pd; cases ed) (simp add: derive_def ebind_def)

lemma upsert_keys: "fst ` set (upsert k r recs) = insert k (fst ` set recs)"
proof -
  have "set (map fst (upsert k r recs)) = insert k (set (map fst recs))"
    unfolding map_fst_upsert by auto
  then show ?thesis by simp
qed

lemma assemble_keys_mono:
  "assemble uj cs recs = Inr out \<Longrightarrow> fst ` set recs \<subseteq> fst ` set out"
proof (induction cs arbitrary: recs)
  case Nil
  then show ?case by simp
next
  case (Cons c cs)
  show ?case
  proof (cases "derive uj c")
    case (Inl e)
    with Cons.prems show ?thesis by simp
  next
    case (Inr o1)
    show ?thesis
    proof (cases o1)
      case None
      with Inr Cons show ?thesis by simp
    next
      case (Some kr)
      obtain k r where kr: "kr = (k, r)" by (cases kr)
      from Cons.prems Inr Some kr have "assemble uj cs (upsert k r recs) = Inr out" by simp
      from Cons.IH[OF this] show ?thesis by (auto simp: upsert_keys)
    qed
  qed
qed

lemma assemble_append:
  "assemble uj (cs1 @ cs2) recs =
     (case assemble uj cs1 recs of Inl e \<Rightarrow> Inl e | Inr mid \<Rightarrow> assemble uj cs2 mid)"
  by (induction cs1 arbitrary: recs) (auto split: sum.splits option.splits)

lemma assemble_brings_key:
  assumes "derive uj c = Inr (Some (k, r))" and "assemble uj (cs1 @ c # cs2) recs = Inr out"
  shows "k \<in> fst ` set out"
proof -
  from assms(2) obtain mid where "assemble uj cs1 recs = Inr mid"
    and rest: "assemble uj (c # cs2) mid = Inr out"
    by (auto simp: assemble_append split: sum.splits)
  from rest assms(1) have "assemble uj cs2 (upsert k r mid) = Inr out" by simp
  from assemble_keys_mono[OF this] show ?thesis by (auto simp: upsert_keys)
qed

lemma current_brings_key:
  assumes "derive uj c = Inr (Some (k, r))"
    and "parse_current_calendar uj (cs1 @ c # cs2) = Inr out"
  shows "k \<in> set (map key_of out)"
proof -
  from assms(2) obtain recs where a: "assemble uj (cs1 @ c # cs2) [] = Inr recs"
    and o: "out = map snd recs"
    by (auto simp: parse_current_calendar_def ebind_def split: sum.splits)
  have "keyed []" by (simp add: keyed_def)
  from keyed_assemble[OF this a] have "\<forall>kr \<in> set recs. key_of (snd kr) = fst kr"
    by (simp add: keyed_def)
  then have "map key_of (map snd recs) = map fst recs" by simp
  moreover from assemble_brings_key[OF assms(1) a] have "k \<in> set (map fst recs)" by simp
  ultimately show ?thesis unfolding o by simp
qed

lemma assemble_all_derive:
  "assemble uj cs recs = Inr out \<Longrightarrow> \<forall>c \<in> set cs. \<exists>d. derive uj c = Inr d"
proof (induction cs arbitrary: recs)
  case Nil
  then show ?case by simp
next
  case (Cons c cs)
  then show ?case by (auto split: sum.splits option.splits)
qed

lemma derived_Cons:
  "derived uj (c # cs) = (case derive uj c of Inr (Some kr) \<Rightarrow> [kr] | _ \<Rightarrow> []) @ derived uj cs"
  by (simp add: derived_def)

lemma assemble_derived:
  assumes "\<forall>c \<in> set cs. \<exists>d. derive uj c = Inr d"
    and "distinct (map fst recs @ map fst (derived uj cs))"
  shows "assemble uj cs recs = Inr (recs @ derived uj cs)"
  using assms
proof (induction cs arbitrary: recs)
  case Nil
  then show ?case by (simp add: derived_def)
next
  case (Cons c cs)
  from Cons.prems(1) obtain d where d: "derive uj c = Inr d" by auto
  show ?case
  proof (cases d)
    case None
    with d Cons show ?thesis by (simp add: derived_Cons)
  next
    case (Some kr)
    obtain k r where kr: "kr = (k, r)" by (cases kr)
    from Cons.prems(2) d Some kr have fresh: "k \<notin> fst ` set recs"
      and dist: "distinct (map fst (recs @ [(k, r)]) @ map fst (derived uj cs))"
      by (auto simp: derived_Cons)
    from fresh have "upsert k r recs = recs @ [(k, r)]" by (simp add: upsert_def)
    moreover from Cons.prems(1) have "\<forall>c \<in> set cs. \<exists>d. derive uj c = Inr d" by simp
    from Cons.IH[OF this dist]
    have "assemble uj cs (recs @ [(k, r)]) = Inr ((recs @ [(k, r)]) @ derived uj cs)" .
    ultimately show ?thesis using d Some kr by (simp add: derived_Cons)
  qed
qed

lemma mset_derived:
  "mset (derived uj cs) =
     (\<Sum>c \<in># mset cs. mset (case derive uj c of Inr (Some kr) \<Rightarrow> [kr] | _ \<Rightarrow> []))"
  by (induction cs) (simp_all add: derived_def)

lemma assemble_total:
  "\<forall>c \<in> set cs. \<exists>d. derive uj c = Inr d \<Longrightarrow> \<exists>out. assemble uj cs recs = Inr out"
proof (induction cs arbitrary: recs)
  case Nil
  then show ?case by simp
next
  case (Cons c cs)
  then obtain d where d: "derive uj c = Inr d" by auto
  from Cons have "\<And>recs. \<exists>out. assemble uj cs recs = Inr out" by simp
  with d show ?case by (cases d) (auto split: prod.splits)
qed

lemma assemble_key_set:
  "assemble uj cs recs = Inr out \<Longrightarrow>
     fst ` set out = fst ` set recs \<union> fst ` set (derived uj cs)"
proof (induction cs arbitrary: recs)
  case Nil
  then show ?case by (simp add: derived_def)
next
  case (Cons c cs)
  show ?case
  proof (cases "derive uj c")
    case (Inl e)
    with Cons.prems show ?thesis by simp
  next
    case (Inr d)
    show ?thesis
    proof (cases d)
      case None
      with Inr Cons show ?thesis by (simp add: derived_Cons)
    next
      case (Some kr)
      obtain k r where kr: "kr = (k, r)" by (cases kr)
      from Cons.prems Inr Some kr have "assemble uj cs (upsert k r recs) = Inr out" by simp
      from Cons.IH[OF this] Inr Some kr show ?thesis
        by (simp add: derived_Cons upsert_keys)
    qed
  qed
qed

lemma current_keys:
  assumes "parse_current_calendar uj cs = Inr out"
  shows "set (map key_of out) = fst ` set (derived uj cs)"
proof -
  from assms obtain recs where a: "assemble uj cs [] = Inr recs" and o: "out = map snd recs"
    by (auto simp: parse_current_calendar_def ebind_def split: sum.splits)
  have "keyed []" by (simp add: keyed_def)
  from keyed_assemble[OF this a] have "\<forall>kr \<in> set recs. key_of (snd kr) = fst kr"
    by (simp add: keyed_def)
  then have "map key_of (map snd recs) = map fst recs" by simp
  with assemble_key_set[OF a] show ?thesis unfolding o by simp
qed

section \<open>The three date branches\<close>

lemma cross_month_dates_eq:
  assumes "group_int m ''d1'' = Inr d1" and "group_int m ''d2'' = Inr d2"
    and "group_month m ''m1'' = Inr month1" and "group_month m ''m2'' = Inr month2"
  shows "cross_month_dates yr m =
     Inr (fmt_date yr month1 d1, fmt_date (yr + (if month2 < month1 then 1 else 0)) month2 d2)"
  using assms
  by (auto simp: cross_month_dates_def group_month_def ebind_def split: sum.splits)

lemma same_month_dates_eq:
  assumes "group_int m ''d1'' = Inr d1" and "group_int m ''d2'' = Inr d2"
    and "same_month_dates yr m = Inr (s, e)"
  shows "\<exists>mo. group_month m ''m1'' = Inr mo \<and> s = fmt_date yr mo d1 \<and> e = fmt_date yr mo d2"
  using assms
  by (auto simp: same_month_dates_def group_month_def ebind_def split: sum.splits)

lemma same_month_dates_value:
  assumes "group_int m ''d1'' = Inr d1" and "group_int m ''d2'' = Inr d2"
    and "group_month m ''m1'' = Inr mo"
  shows "same_month_dates yr m = Inr (fmt_date yr mo d1, fmt_date yr mo d2)"
  using assms
  by (auto simp: same_month_dates_def group_month_def ebind_def split: sum.splits)

lemma single_day_dates_eq: "single_day_dates yr m = Inr (s, e) \<Longrightarrow> s = e"
  by (auto simp: single_day_dates_def ebind_def split: sum.splits)

lemma group_month_range: "group_month m n = Inr k \<Longrightarrow> 1 \<le> k \<and> k \<le> 12"
  by (auto simp: group_month_def group_lower_def month_of_name_def ebind_def MONTH_TO_NUM_def
      split: option.splits sum.splits if_splits)

section \<open>Date texts read back\<close>

lemma code_digit_char: "k < 10 \<Longrightarrow> code (digit_char k) = 48 + k"
  by (simp add: code_def digit_char_def)

lemma is_digit_digit_char: "k < 10 \<Longrightarrow> is_digit (digit_char k)"
  by (simp add: is_digit_def code_digit_char)

lemma digit_val_digit_char: "k < 10 \<Longrightarrow> digit_val (digit_char k) = k"
  by (simp add: digit_val_def code_digit_char)

lemma digits_all: "list_all is_digit (digits n)"
  by (induction n rule: digits.induct) (subst digits.simps, simp add: is_digit_digit_char)

lemma digits_nonempty: "digits n \<noteq> []"
  by (subst digits.simps) simp

lemma nat_of_digits_append:
  "nat_of_digits (xs @ [c]) = 10 * nat_of_digits xs + digit_val c"
  by (simp add: nat_of_digits_def)

lemma nat_of_digits_digits: "nat_of_digits (digits n) = n"
proof (induction n rule: digits.induct)
  case (1 n)
  show ?case
  proof (cases "n < 10")
    case True
    then show ?thesis by (subst digits.simps) (simp add: nat_of_digits_def digit_val_digit_char)
  next
    case False
    with 1 have "nat_of_digits (digits (n div 10)) = n div 10" by simp
    with False show ?thesis
      by (subst digits.simps) (simp add: nat_of_digits_append digit_val_digit_char)
  qed
qed

lemma nat_of_digits_zeros: "nat_of_digits (replicate k CHR ''0'' @ s) = nat_of_digits s"
proof -
  have z: "digit_val CHR ''0'' = 0" by (simp add: digit_val_def code_def)
  have "foldl (\<lambda>a c. 10 * a + digit_val c) 0 (replicate k CHR ''0'') = 0"
    by (induction k) (simp_all add: z)
  then show ?thesis by (simp add: nat_of_digits_def)
qed

lemma is_digit_zero: "is_digit CHR ''0''"
  by (simp add: is_digit_def code_def)

lemma zfill_all: "list_all is_digit s \<Longrightarrow> list_all is_digit (zfill w s)"
  by (auto simp: zfill_def list_all_iff is_digit_zero)

lemma zfill_value: "nat_of_digits (zfill w s) = nat_of_digits s"
  by (simp add: zfill_def nat_of_digits_zeros)

lemma digit_not_space: "is_digit c \<Longrightarrow> \<not> is_space c"
  by (auto simp: is_digit_def is_space_def)

lemma strip_digits:
  assumes "list_all is_digit s"
  shows "py_strip s = s"
proof (cases s rule: rev_cases)
  case Nil
  then show ?thesis by (simp add: py_strip_def)
next
  case (snoc ys y)
  with assms have y: "\<not> is_space y" by (simp add: digit_not_space)
  show ?thesis
  proof (cases s)
    case Nil
    with snoc show ?thesis by simp
  next
    case (Cons x xs)
    with assms have "\<not> is_space x" by (simp add: digit_not_space)
    with Cons have "dropWhile is_space s = s" by simp
    with snoc y show ?thesis by (simp add: py_strip_def)
  qed
qed

lemma digit_not_sign: "is_digit c \<Longrightarrow> c \<noteq> CHR ''-'' \<and> c \<noteq> CHR ''+''"
  by (auto simp: is_digit_def code_def)

lemma py_int_digits:
  assumes "list_all is_digit s" and "s \<noteq> []"
  shows "py_int s = Some (int (nat_of_digits s))"
proof -
  from assms obtain x xs where s: "s = x # xs" by (cases s) auto
  with assms have "x \<noteq> CHR ''-''" "x \<noteq> CHR ''+''" by (simp_all add: digit_not_sign)
  with s have "\<not> startswith s ''-''" "\<not> startswith s ''+''" by simp_all
  with assms show ?thesis by (simp add: py_int_def strip_digits Let_def)
qed

lemma fmt_0d_nonneg:
  assumes "0 \<le> n"
  shows "list_all is_digit (fmt_0d w n)" and "fmt_0d w n \<noteq> []"
    and "py_int (fmt_0d w n) = Some n"
proof -
  from assms have f: "fmt_0d w n = zfill w (digits (nat n))" by (simp add: fmt_0d_def)
  show a: "list_all is_digit (fmt_0d w n)" unfolding f by (intro zfill_all digits_all)
  show b: "fmt_0d w n \<noteq> []" unfolding f by (simp add: zfill_def digits_nonempty)
  from py_int_digits[OF a b] assms show "py_int (fmt_0d w n) = Some n"
    unfolding f by (simp add: zfill_value nat_of_digits_digits)
qed

lemma split_on_plain: "sep \<notin> set s \<Longrightarrow> split_on sep s = [s]"
  by (induction s) auto

lemma split_on_sep:
  "sep \<notin> set a \<Longrightarrow> split_on sep (a @ sep # rest) = a # split_on sep rest"
  by (induction a) (auto split: list.splits)

lemma digits_no_dash: "list_all is_digit s \<Longrightarrow> CHR ''-'' \<notin> set s"
  by (auto simp: list_all_iff dest: digit_not_sign)

lemma iso_triple_fmt_date:
  assumes "0 \<le> y" and "0 \<le> m" and "0 \<le> d"
  shows "iso_triple (fmt_date y m d) = Some (y, m, d)"
proof -
  note fy = fmt_0d_nonneg[OF assms(1), of 4] and fm = fmt_0d_nonneg[OF assms(2), of 2]
    and fd = fmt_0d_nonneg[OF assms(3), of 2]
  have "split_on CHR ''-'' (fmt_date y m d) = [fmt_0d 4 y, fmt_0d 2 m, fmt_0d 2 d]"
    using fy(1) fm(1) fd(1)
    by (simp add: fmt_date_def split_on_sep split_on_plain digits_no_dash)
  then show ?thesis using fy(3) fm(3) fd(3) by (simp add: iso_triple_def)
qed

lemma iso_le_fmt_date:
  assumes "0 \<le> y1" "0 \<le> m1" "0 \<le> d1" "0 \<le> y2" "0 \<le> m2" "0 \<le> d2"
  shows "iso_le (fmt_date y1 m1 d1) (fmt_date y2 m2 d2) = date_le (y1, m1, d1) (y2, m2, d2)"
  using assms by (simp add: iso_le_def iso_triple_fmt_date)

section \<open>The example pages, evaluated\<close>

lemma parse_jan30:
  "parse_dates_and_flags 2024 ''Jan 30'' False = Inr (parsed_day ''2024-01-30'' Scheduled)"
  by code_simp

lemma parse_jan30_unscheduled:
  "parse_dates_and_flags 2024 ''Jan 30 (unscheduled)'' False = Inr (parsed_day ''2024-01-30'' Unscheduled)"
  by code_simp

lemma parse_feb30:
  "parse_dates_and_flags 2024 ''Feb 30 (unscheduled)'' False = Inr (parsed_day ''2024-02-30'' Unscheduled)"
  by code_simp

lemma parse_jan31:
  "parse_dates_and_flags 2024 ''Jan 31'' False = Inr (parsed_day ''2024-01-31'' Scheduled)"
  by code_simp

lemma parse_jan30_minutes:
  "parse_dates_and_flags 2024 ''Jan 30 Minutes'' False = Inr (parsed_day ''2024-01-30'' Scheduled)"
  by code_simp

lemma parse_jan30_unscheduled_minutes:
  "parse_dates_and_flags 2024 ''Jan 30 (unscheduled) Minutes'' False =
     Inr (parsed_day ''2024-01-30'' Unscheduled)"
  by code_simp

lemma parse_jan30_cancelled:
  "parse_dates_and_flags 2024 ''Jan 30 cancelled'' False = Inr (parsed_day ''2024-01-30'' Scheduled)"
  by code_simp

lemma parse_reversed:
  "parse_dates_and_flags 2024 ''Jan 20-5 (unscheduled)'' False =
     Inr \<lparr>p_start = Some ''2024-01-20'', p_end = Some ''2024-01-05'', p_type = Unscheduled,
          p_cancelled = False, p_sep = False\<rparr>"
  by code_simp

lemma month_found:
  "found True MONTH_RE ''Jan 30''" "found True MONTH_RE ''Jan 30 (unscheduled)''"
  "found True MONTH_RE ''Feb 30 (unscheduled)''" "found True MONTH_RE ''Jan 31''"
  "found True MONTH_RE ''Jan 30 cancelled''" "found True MONTH_RE ''Jan 20-5 (unscheduled)''"
  "found True MONTH_RE ''Jan 30 Minutes''" "found True MONTH_RE ''Jan 30 (unscheduled) Minutes''"
  by code_simp+

lemma links_statement: "collect_links no_join [statement_anchor] = (links_statement_only, False)"
  by code_simp

lemma links_minutes: "collect_links no_join [minutes_anchor] = (links_minutes_only, False)"
  by code_simp

lemma links_none: "collect_links uj [] = (no_links, False)"
  by (simp add: collect_links_def)

lemma press_date: "extract_press_date_from_url (Some statement_url) = Some (2024, 1, 30)"
  by code_simp

lemma iso_dates:
  "date_from_iso (Some ''2024-01-30'') = Inr (Some (2024, 1, 30))"
  "date_from_iso (Some ''2024-01-31'') = Inr (Some (2024, 1, 31))"
  "date_from_iso (Some ''2024-01-05'') = Inr (Some (2024, 1, 5))"
  "date_from_iso (Some ''2024-02-30'') = Inl ValueError"
  by code_simp+

lemma statement_url_truthy: "statement_url \<noteq> []"
  by (simp add: statement_url_def)

lemma prefix_in_2024: "found True MONTH_RE t \<Longrightarrow> date_prefix_of (in_2024 t as) = t"
  by (simp add: date_prefix_of_def in_2024_def ensure_month_prefix_def)

lemma year_in_2024: "resolve_year (in_2024 t as) = Some 2024"
  by (simp add: resolve_year_def in_2024_def falsy_year_def)

lemma links_in_2024: "links_of uj (in_2024 t as) = fst (collect_links uj as)"
  by (simp add: links_of_def in_2024_def)

lemma has_proj_in_2024: "has_proj_of uj (in_2024 t as) = snd (collect_links uj as)"
  by (simp add: has_proj_of_def in_2024_def)

lemmas in_2024_simps = prefix_in_2024 year_in_2024 links_in_2024 has_proj_in_2024 month_found
  links_statement links_minutes links_none press_date iso_dates statement_url_truthy
  parsed_day_def links_statement_only_def links_minutes_only_def no_links_def ebind_def

lemma derive_scheduled:
  "derive no_join c_scheduled =
     Inr (Some (key_jan30, current_entry 2024 (parsed_day ''2024-01-30'' Scheduled) links_statement_only))"
  unfolding c_scheduled_def by (simp add: derive_def in_2024_simps parse_jan30 key_jan30_def)

lemma derive_unscheduled:
  "derive no_join c_unscheduled =
     Inr (Some (key_jan30, current_entry 2024 (parsed_day ''2024-01-30'' Unscheduled) links_statement_only))"
  unfolding c_unscheduled_def
  by (simp add: derive_def in_2024_simps parse_jan30_unscheduled key_jan30_def)

lemma derive_minutes: "derive no_join c_minutes = Inr None"
  unfolding c_minutes_def by (simp add: derive_def in_2024_simps parse_jan30_minutes)

lemma derive_unscheduled_minutes:
  "derive no_join c_unscheduled_minutes =
     Inr (Some (key_jan30, current_entry 2024 (parsed_day ''2024-01-30'' Unscheduled) links_minutes_only))"
  unfolding c_unscheduled_minutes_def
  by (simp add: derive_def in_2024_simps parse_jan30_unscheduled_minutes key_jan30_def)

lemma derive_feb30: "derive no_join c_feb30 = Inl ValueError"
  unfolding c_feb30_def by (simp add: derive_def in_2024_simps parse_feb30)

lemma derive_mismatch: "derive no_join c_mismatch = Inr None"
  unfolding c_mismatch_def by (simp add: derive_def in_2024_simps parse_jan31)

lemma derive_cancelled_plain:
  "derive no_join c_cancelled_plain =
     Inr (Some (key_jan30, current_entry 2024 (parsed_day ''2024-01-30'' Scheduled) links_statement_only))"
  unfolding c_cancelled_plain_def
  by (simp add: derive_def in_2024_simps parse_jan30_cancelled key_jan30_def)

lemma derive_reversed:
  "derive no_join c_reversed =
     Inr (Some ((2024, Some ''2024-01-20'', Some ''2024-01-05''),
       current_entry 2024 \<lparr>p_start = Some ''2024-01-20'', p_end = Some ''2024-01-05'',
         p_type = Unscheduled, p_cancelled = False, p_sep = False\<rparr> no_links))"
  unfolding c_reversed_def by (simp add: derive_def in_2024_simps parse_reversed)

lemma future_run:
  "parse_future_calendar (2025, 6, 1) future_page =
     Inr [future_entry 2025 ''2025-07-29'' ''2025-07-30'' False,
          future_entry 2025 ''2025-09-17'' ''2025-09-16'' True]"
  by code_simp

lemma hist_parse:
  "parse_dates_from_text 2015 ''Jan 27-28 Meeting'' =
     Inr (Some ''2015-01-27'', Some ''2015-01-28'', False, Scheduled)"
  by code_simp

lemma hist_links:
  "collect_links_hist [\<lparr>href = ''/monetarypolicy/fomcminutes20150128.htm'', label = ''Minutes''\<rparr>] =
     (\<lparr>l_statement = None,
       l_minutes = Some ''https://www.federalreserve.gov/monetarypolicy/fomcminutes20150128.htm'',
       l_press = None\<rparr>, False)"
  "collect_links_hist [\<lparr>href = ''/newsevents/pressreleases/monetary20150128a.htm'', label = ''Statement''\<rparr>] =
     (\<lparr>l_statement = Some ''https://www.federalreserve.gov/newsevents/pressreleases/monetary20150128a.htm'',
       l_minutes = None, l_press = None\<rparr>, False)"
  "collect_links_hist [] = (no_links, False)"
  by code_simp+

lemma label_found:
  "found True (Lit ''statement'') (lower ''Minutes'') = False"
  "found True (Lit ''minutes'') (lower ''Minutes'') = True"
  "found True (Lit ''statement'') (lower ''Statement'') = True"
  by code_simp+

lemma hist_parse_minutes:
  "parse_dates_from_text 2015 ''Jan 27-28 Meeting Minutes'' =
     Inr (Some ''2015-01-27'', Some ''2015-01-28'', False, Scheduled)"
  by code_simp

lemma hist_parse_both:
  "parse_dates_from_text 2015 ''Jan 27-28 Meeting Minutes Jan 27-28 Meeting Statement'' =
     Inr (Some ''2015-01-27'', Some ''2015-01-28'', False, Scheduled)"
  by code_simp

lemma hist_parse_feb30:
  "parse_dates_from_text 2024 ''Feb 30 (unscheduled)'' =
     Inr (Some ''2024-02-30'', Some ''2024-02-30'', False, Unscheduled)"
  by code_simp

lemma not_cancelled:
  "text_cancelled ''Jan 27-28 Meeting'' = False"
  "text_cancelled ''Jan 27-28 Meeting Minutes'' = False"
  "text_cancelled ''Feb 30 (unscheduled)'' = False"
  by code_simp+

lemma two_paragraphs_run:
  "parse_year_page 2015 two_paragraphs u =
     Inr [hist_entry 2015 u (Some ''2015-01-27'') (Some ''2015-01-28'') Scheduled False
            (\<lparr>l_statement = None,
              l_minutes = Some ''https://www.federalreserve.gov/monetarypolicy/fomcminutes20150128.htm'',
              l_press = None\<rparr>, False)]"
  by (simp add: parse_year_page_def two_paragraphs_def hist_add_def hist_parse_minutes
      hist_parse_both hist_links label_found not_cancelled ebind_def)

lemma feb30_page_run:
  "parse_year_page 2024 feb30_page u =
     Inr [hist_entry 2024 u (Some ''2024-02-30'') (Some ''2024-02-30'') Unscheduled False
            (no_links, False)]"
  by (simp add: parse_year_page_def feb30_page_def hist_add_def hist_parse_feb30 hist_links
      not_cancelled ebind_def)

lemma meeting_page_run:
  "parse_year_page 2015 meeting_page u =
     Inr [hist_entry 2015 u (Some ''2015-01-27'') (Some ''2015-01-28'') Scheduled False (no_links, False)]"
  by (simp add: parse_year_page_def meeting_page_def hist_add_def hist_parse hist_links
      not_cancelled ebind_def)

lemma index_run:
  "index_links (Some [2015]) (pg_anchors index_page) =
     [(2015, ''https://www.federalreserve.gov/monetarypolicy/fomchistorical2015.htm'')]"
  by code_simp

lemma direct_run:
  "direct_links 2024 (Some [2015]) =
     [(2015, ''https://www.federalreserve.gov/monetarypolicy/fomccalendars2015.htm'')]"
  by code_simp

lemma site_facts:
  "site HISTORICAL_INDEX_URL = Inr index_page"
  "site ''https://www.federalreserve.gov/monetarypolicy/fomchistorical2015.htm'' = Inr meeting_page"
  "site ''https://www.federalreserve.gov/monetarypolicy/fomccalendars2015.htm'' = Inr meeting_page"
  by (simp_all add: site_def HISTORICAL_INDEX_URL_def)

lemma scheduled_alone:
  "parse_current_calendar no_join [c_scheduled] =
     Inr [current_entry 2024 (parsed_day ''2024-01-30'' Scheduled) links_statement_only]"
  by (simp add: parse_current_calendar_def derive_scheduled upsert_def ebind_def)

lemma scheduled_then_unscheduled:
  "parse_current_calendar no_join [c_scheduled, c_unscheduled] =
     Inr [current_entry 2024 (parsed_day ''2024-01-30'' Scheduled) links_statement_only]"
  by (simp add: parse_current_calendar_def derive_scheduled derive_unscheduled upsert_def
      ebind_def fill_links_def current_entry_def links_statement_only_def statement_url_def)

lemma unscheduled_then_scheduled:
  "parse_current_calendar no_join [c_unscheduled, c_scheduled] =
     Inr [current_entry 2024 (parsed_day ''2024-01-30'' Unscheduled) links_statement_only]"
  by (simp add: parse_current_calendar_def derive_scheduled derive_unscheduled upsert_def
      ebind_def fill_links_def current_entry_def links_statement_only_def statement_url_def)

lemma parse_dec31_jan1:
  "parse_dates_and_flags 2024 ''Dec 31-Jan 1'' False = Inr (parsed_day ''2024-12-31'' Scheduled)"
  by code_simp

lemma hist_parse_dec31_jan1:
  "parse_dates_from_text 2024 ''Dec 31-Jan 1'' =
     Inr (Some ''2024-12-31'', Some ''2024-12-31'', False, Scheduled)"
  by code_simp

lemma parse_dec_jan:
  "parse_dates_and_flags 2024 ''Dec/Jan 31-1'' False =
     Inr \<lparr>p_start = Some ''2024-12-31'', p_end = Some ''2025-01-01'', p_type = Scheduled,
          p_cancelled = False, p_sep = False\<rparr>"
  by code_simp

lemma search_dec_jan: "re_search True cross_month_rx ''Dec/Jan 31-1'' = Some dec_jan_match"
  by code_simp

lemma groups_dec_jan:
  "group_int dec_jan_match ''d1'' = Inr 31" "group_int dec_jan_match ''d2'' = Inr 1"
  "group_month dec_jan_match ''m1'' = Inr 12" "group_month dec_jan_match ''m2'' = Inr 1"
  by code_simp+

lemma search_jan_range:
  "re_search True cross_month_rx ''Jan 30-31'' = None"
  "re_search True same_month_rx ''Jan 30-31'' = Some jan_range_match"
  by code_simp+

lemma groups_jan_range:
  "group_int jan_range_match ''d1'' = Inr 30" "group_int jan_range_match ''d2'' = Inr 31"
  "group_month jan_range_match ''m1'' = Inr 1"
  by code_simp+

lemma search_jan30:
  "re_search True cross_month_rx ''Jan 30'' = None"
  "re_search True same_month_rx ''Jan 30'' = None"
  by code_simp+

lemma find_jan30:
  "find_dates cross_month_rx same_month_rx single_day_rx 2024 ''Jan 30'' =
     Inr (Some (''2024-01-30'', ''2024-01-30''))"
  by code_simp

lemma month_range: "MONTH_TO_NUM s = Some k \<Longrightarrow> 1 \<le> k \<and> k \<le> 12"
  by (auto simp: MONTH_TO_NUM_def split: if_splits)

lemma parse_row_range:
  assumes "r_date r = Some dt" and "re_match False DAY_RANGE_ONLY_RE dt = Some m"
    and "group_int m ''1'' = Inr d1" and "group_int m ''2'' = Inr d2"
    and "parse_row yr r = Inr (Some (s, e, star))"
  shows "\<exists>mo. 1 \<le> mo \<and> s = fmt_date yr mo d1 \<and> e = fmt_date yr mo d2"
  using assms
  by (auto simp: parse_row_def ebind_def split: option.splits if_splits dest: month_range)

lemma parse_row_single:
  assumes "r_date r = Some dt" and "re_match False DAY_RANGE_ONLY_RE dt = None"
    and "parse_row yr r = Inr (Some (s, e, star))"
  shows "s = e"
  using assms
  by (auto simp: parse_row_def ebind_def split: option.splits if_splits sum.splits)

lemma row_matches:
  "re_match False DAY_RANGE_ONLY_RE ''29-30'' =
     Some \<lparr>before = [], matched = ''29-30'', groups = [(''2'', ''30''), (''1'', ''29'')], after = []\<rparr>"
  "re_match False DAY_RANGE_ONLY_RE ''31'' = None"
  by code_simp+

lemma row_groups:
  "group_int \<lparr>before = [], matched = ''29-30'', groups = [(''2'', ''30''), (''1'', ''29'')], after = []\<rparr> ''1'' = Inr 29"
  "group_int \<lparr>before = [], matched = ''29-30'', groups = [(''2'', ''30''), (''1'', ''29'')], after = []\<rparr> ''2'' = Inr 30"
  by code_simp+

lemma parse_rows:
  "parse_row 2025 \<lparr>r_month = Some ''July'', r_date = Some ''29-30''\<rparr> =
     Inr (Some (''2025-07-29'', ''2025-07-30'', False))"
  "parse_row 2025 \<lparr>r_month = Some ''Oct'', r_date = Some ''31''\<rparr> =
     Inr (Some (''2025-10-31'', ''2025-10-31'', False))"
  by code_simp+

lemma fmt_dates:
  "fmt_date 2024 12 31 = ''2024-12-31''" "fmt_date 2025 1 1 = ''2025-01-01''"
  "fmt_date 2024 1 30 = ''2024-01-30''" "fmt_date 2024 1 31 = ''2024-01-31''"
  by code_simp+

lemma ordered_examples:
  "ordered (future_entry 2025 ''2025-07-29'' ''2025-07-30'' False) = True"
  "ordered (future_entry 2025 ''2025-09-17'' ''2025-09-16'' True) = False"
  "ordered (current_entry 2024 \<lparr>p_start = Some ''2024-01-20'', p_end = Some ''2024-01-05'',
     p_type = Unscheduled, p_cancelled = False, p_sep = False\<rparr> no_links) = False"
  by code_simp+

lemma note_unscheduled: "note_of ''Jan 30 (unscheduled)'' = Some ''unscheduled''"
  by code_simp

lemma note_has_unscheduled:
  "note_has (Some ''unscheduled'') ''unscheduled'' = True"
  "note_has (Some ''unscheduled'') ''notation vote'' = False"
  "note_has (Some ''unscheduled'') ''cancelled'' = False"
  "note_has (Some ''unscheduled'') ''canceled'' = False"
  by code_simp+

lemma hist_text_flags:
  "str_in ''notation vote'' (lower (normalize_text ''Jan 27-28 Meeting'')) = False"
  "str_in ''unscheduled'' (lower (normalize_text ''Jan 27-28 Meeting'')) = False"
  "str_in ''cancelled'' (lower ''Jan 27-28 Meeting'') = False"
  "str_in ''canceled'' (lower ''Jan 27-28 Meeting'') = False"
  by code_simp+

lemma hist_add_meeting:
  "hist_add 2015 ''u'' ''Jan 27-28 Meeting'' (no_links, False) ([], []) =
     Inr ([(2015, Some ''2015-01-27'', Some ''2015-01-28'')],
          [hist_entry 2015 ''u'' (Some ''2015-01-27'') (Some ''2015-01-28'') Scheduled False
             (no_links, False)])"
  by (simp add: hist_add_def hist_parse not_cancelled ebind_def)

lemma minutes_then_scheduled:
  "parse_current_calendar no_join [c_minutes, c_scheduled] =
     Inr [current_entry 2024 (parsed_day ''2024-01-30'' Scheduled) links_statement_only]"
  by (simp add: parse_current_calendar_def derive_scheduled derive_minutes upsert_def ebind_def)

lemma unscheduled_minutes_alone:
  "parse_current_calendar no_join [c_unscheduled_minutes] =
     Inr [current_entry 2024 (parsed_day ''2024-01-30'' Unscheduled) links_minutes_only]"
  by (simp add: parse_current_calendar_def derive_unscheduled_minutes upsert_def ebind_def)

lemma derived_examples:
  "derived no_join [c_reversed, c_unscheduled] =
     [((2024, Some ''2024-01-20'', Some ''2024-01-05''),
       current_entry 2024 \<lparr>p_start = Some ''2024-01-20'', p_end = Some ''2024-01-05'',
         p_type = Unscheduled, p_cancelled = False, p_sep = False\<rparr> no_links),
      (key_jan30, current_entry 2024 (parsed_day ''2024-01-30'' Unscheduled) links_statement_only)]"
  by (simp add: derived_def derive_reversed derive_unscheduled)

lemma reversed_then_unscheduled:
  "parse_current_calendar no_join [c_reversed, c_unscheduled] =
     Inr [current_entry 2024 \<lparr>p_start = Some ''2024-01-20'', p_end = Some ''2024-01-05'',
            p_type = Unscheduled, p_cancelled = False, p_sep = False\<rparr> no_links,
          current_entry 2024 (parsed_day ''2024-01-30'' Unscheduled) links_statement_only]"
  by (simp add: parse_current_calendar_def derive_reversed derive_unscheduled upsert_def ebind_def
      key_jan30_def)

lemma reversed_alone:
  "parse_current_calendar no_join [c_reversed] =
     Inr [current_entry 2024 \<lparr>p_start = Some ''2024-01-20'', p_end = Some ''2024-01-05'',
            p_type = Unscheduled, p_cancelled = False, p_sep = False\<rparr> no_links]"
  by (simp add: parse_current_calendar_def derive_reversed upsert_def ebind_def)

lemma cancelled_plain_alone:
  "parse_current_calendar no_join [c_cancelled_plain] =
     Inr [current_entry 2024 (parsed_day ''2024-01-30'' Scheduled) links_statement_only]"
  by (simp add: parse_current_calendar_def derive_cancelled_plain upsert_def ebind_def)

section \<open>The claims\<close>

text \<open>
  C1, as the code has it. The cross-month range is written \<open>Month1/Month2 D1-D2\<close>. For a
  match of that pattern the start date is \<open>year-month1-D1\<close>; the end date is
  \<open>(year+1)-month2-D2\<close> when the number of the second month is smaller than that of the
  first, and \<open>year-month2-D2\<close> otherwise. Both date parsers run this chain.
\<close>

theorem C1_cross_month_rollover:
  assumes "re_search True cross text = Some m"
    and "group_int m ''d1'' = Inr d1" and "group_int m ''d2'' = Inr d2"
    and "group_month m ''m1'' = Inr month1" and "group_month m ''m2'' = Inr month2"
  shows "find_dates cross same single yr text =
           Inr (Some (fmt_date yr month1 d1,
                      fmt_date (if month2 < month1 then yr + 1 else yr) month2 d2))"
  using assms by (simp add: find_dates_def cross_month_dates_eq ebind_def)

text \<open>C1 at \<open>Dec/Jan 31-1\<close> under the year 2024: 2024-12-31 to 2025-01-01.\<close>

theorem C1_cross_month_rollover_witness:
  "re_search True cross_month_rx ''Dec/Jan 31-1'' = Some dec_jan_match
   \<and> find_dates cross_month_rx same_month_rx single_day_rx 2024 ''Dec/Jan 31-1'' =
       Inr (Some (''2024-12-31'', ''2025-01-01''))
   \<and> parse_dates_and_flags 2024 ''Dec/Jan 31-1'' False =
       Inr \<lparr>p_start = Some ''2024-12-31'', p_end = Some ''2025-01-01'', p_type = Scheduled,
            p_cancelled = False, p_sep = False\<rparr>"
  using C1_cross_month_rollover [OF search_dec_jan groups_dec_jan, of same_month_rx single_day_rx 2024]
    search_dec_jan parse_dec_jan
  by (simp add: fmt_dates)

text \<open>
  C1 as stated fails at its own example: the text \<open>Dec 31-Jan 1\<close> has no \<open>/\<close> between two
  months, so only the single-day pattern matches, at \<open>Dec 31\<close>, and both parsers give
  2024-12-31 as start and as end.
\<close>

theorem C1_dec31_jan1_counterexample:
  "parse_dates_and_flags 2024 ''Dec 31-Jan 1'' False =
     Inr \<lparr>p_start = Some ''2024-12-31'', p_end = Some ''2024-12-31'', p_type = Scheduled,
          p_cancelled = False, p_sep = False\<rparr>
   \<and> parse_dates_from_text 2024 ''Dec 31-Jan 1'' =
     Inr (Some ''2024-12-31'', Some ''2024-12-31'', False, Scheduled)"
  using parse_dec31_jan1 hist_parse_dec31_jan1 by (simp add: parsed_day_def)

text \<open>
  C2, as the code has it, under a contextual year that is not negative. In the chain of
  date patterns of the in-progress and historical parsers a single-day text gives equal
  dates; a range within one month gives \<open>start_date <= end_date\<close> exactly when its days are
  written in ascending order, \<open>D1 <= D2\<close>; a cross-month range gives it exactly when the two
  months differ or \<open>D1 <= D2\<close>. In a row of the future calendar a single day gives equal
  dates and a range gives \<open>start_date <= end_date\<close> exactly when \<open>D1 <= D2\<close>. The days are
  those of the groups \<open>\d{1,2}\<close>, which are not negative.
\<close>

theorem C2_order_of_the_written_days:
  "(re_search True cross text = None \<and> re_search True same text = None
      \<and> find_dates cross same single yr text = Inr (Some (s, e)) \<longrightarrow> s = e)
   \<and> (0 \<le> yr \<and> re_search True cross text = None \<and> re_search True same text = Some m
      \<and> group_int m ''d1'' = Inr d1 \<and> group_int m ''d2'' = Inr d2 \<and> 0 \<le> d1 \<and> 0 \<le> d2
      \<and> find_dates cross same single yr text = Inr (Some (s, e)) \<longrightarrow>
        (iso_le s e \<longleftrightarrow> d1 \<le> d2))
   \<and> (0 \<le> yr \<and> re_search True cross text = Some m
      \<and> group_int m ''d1'' = Inr d1 \<and> group_int m ''d2'' = Inr d2 \<and> 0 \<le> d1 \<and> 0 \<le> d2
      \<and> group_month m ''m1'' = Inr month1 \<and> group_month m ''m2'' = Inr month2
      \<and> find_dates cross same single yr text = Inr (Some (s, e)) \<longrightarrow>
        (iso_le s e \<longleftrightarrow> month1 \<noteq> month2 \<or> d1 \<le> d2))
   \<and> (r_date r = Some dt \<and> re_match False DAY_RANGE_ONLY_RE dt = None
      \<and> parse_row yr r = Inr (Some (s, e, star)) \<longrightarrow> s = e)
   \<and> (0 \<le> yr \<and> r_date r = Some dt \<and> re_match False DAY_RANGE_ONLY_RE dt = Some m
      \<and> group_int m ''1'' = Inr d1 \<and> group_int m ''2'' = Inr d2 \<and> 0 \<le> d1 \<and> 0 \<le> d2
      \<and> parse_row yr r = Inr (Some (s, e, star)) \<longrightarrow>
        (iso_le s e \<longleftrightarrow> d1 \<le> d2))"
proof (intro conjI impI)
  assume "re_search True cross text = None \<and> re_search True same text = None
      \<and> find_dates cross same single yr text = Inr (Some (s, e))"
  then show "s = e"
    by (auto simp: find_dates_def ebind_def split: option.splits sum.splits
        dest: single_day_dates_eq)
next
  assume a: "0 \<le> yr \<and> re_search True cross text = None \<and> re_search True same text = Some m
      \<and> group_int m ''d1'' = Inr d1 \<and> group_int m ''d2'' = Inr d2 \<and> 0 \<le> d1 \<and> 0 \<le> d2
      \<and> find_dates cross same single yr text = Inr (Some (s, e))"
  then have "same_month_dates yr m = Inr (s, e)"
    by (auto simp: find_dates_def ebind_def split: sum.splits)
  with a obtain mo where mo: "group_month m ''m1'' = Inr mo"
    and s: "s = fmt_date yr mo d1" and e: "e = fmt_date yr mo d2"
    using same_month_dates_eq by blast
  from group_month_range[OF mo] have "0 \<le> mo" by simp
  with a show "iso_le s e \<longleftrightarrow> d1 \<le> d2"
    unfolding s e by (simp add: iso_le_fmt_date date_le_def)
next
  assume a: "0 \<le> yr \<and> re_search True cross text = Some m
      \<and> group_int m ''d1'' = Inr d1 \<and> group_int m ''d2'' = Inr d2 \<and> 0 \<le> d1 \<and> 0 \<le> d2
      \<and> group_month m ''m1'' = Inr month1 \<and> group_month m ''m2'' = Inr month2
      \<and> find_dates cross same single yr text = Inr (Some (s, e))"
  then have s: "s = fmt_date yr month1 d1"
    and e: "e = fmt_date (yr + (if month2 < month1 then 1 else 0)) month2 d2"
    by (auto simp: find_dates_def cross_month_dates_eq ebind_def)
  from a group_month_range[of m "''m1''" month1] group_month_range[of m "''m2''" month2]
  have "0 \<le> month1" "0 \<le> month2" by simp_all
  with a show "iso_le s e \<longleftrightarrow> month1 \<noteq> month2 \<or> d1 \<le> d2"
    unfolding s e by (auto simp: iso_le_fmt_date date_le_def)
next
  assume "r_date r = Some dt \<and> re_match False DAY_RANGE_ONLY_RE dt = None
      \<and> parse_row yr r = Inr (Some (s, e, star))"
  then show "s = e" using parse_row_single by blast
next
  assume a: "0 \<le> yr \<and> r_date r = Some dt \<and> re_match False DAY_RANGE_ONLY_RE dt = Some m
      \<and> group_int m ''1'' = Inr d1 \<and> group_int m ''2'' = Inr d2 \<and> 0 \<le> d1 \<and> 0 \<le> d2
      \<and> parse_row yr r = Inr (Some (s, e, star))"
  then obtain mo where mo: "1 \<le> mo" and s: "s = fmt_date yr mo d1" and e: "e = fmt_date yr mo d2"
    using parse_row_range by blast
  from mo have "0 \<le> mo" by simp
  with a show "iso_le s e \<longleftrightarrow> d1 \<le> d2"
    unfolding s e by (simp add: iso_le_fmt_date date_le_def)
qed

text \<open>
  C2 under the year 2024 at \<open>Jan 30\<close> (equal dates), \<open>Jan 30-31\<close> (ascending days, ordered)
  and \<open>Dec/Jan 31-1\<close> (different months, ordered), and under the year 2025 at the rows
  \<open>Oct 31\<close> (equal dates) and \<open>July 29-30\<close> (ascending days, ordered).
\<close>

theorem C2_order_of_the_written_days_witness:
  "find_dates cross_month_rx same_month_rx single_day_rx 2024 ''Jan 30'' =
     Inr (Some (''2024-01-30'', ''2024-01-30''))
   \<and> re_search True same_month_rx ''Jan 30-31'' = Some jan_range_match
   \<and> iso_le ''2024-01-30'' ''2024-01-31''
   \<and> re_search True cross_month_rx ''Dec/Jan 31-1'' = Some dec_jan_match
   \<and> iso_le ''2024-12-31'' ''2025-01-01''
   \<and> parse_row 2025 \<lparr>r_month = Some ''Oct'', r_date = Some ''31''\<rparr> =
       Inr (Some (''2025-10-31'', ''2025-10-31'', False))
   \<and> parse_row 2025 \<lparr>r_month = Some ''July'', r_date = Some ''29-30''\<rparr> =
       Inr (Some (''2025-07-29'', ''2025-07-30'', False))
   \<and> iso_le ''2025-07-29'' ''2025-07-30''"
proof -
  have r: "find_dates cross_month_rx same_month_rx single_day_rx 2024 ''Jan 30-31'' =
      Inr (Some (''2024-01-30'', ''2024-01-31''))"
    by (simp add: find_dates_def search_jan_range same_month_dates_value [OF groups_jan_range]
        ebind_def fmt_dates)
  have c: "find_dates cross_month_rx same_month_rx single_day_rx 2024 ''Dec/Jan 31-1'' =
      Inr (Some (''2024-12-31'', ''2025-01-01''))"
    by (simp add: find_dates_def search_dec_jan cross_month_dates_eq [OF groups_dec_jan]
        ebind_def fmt_dates)
  have "iso_le ''2024-01-30'' ''2024-01-31''"
    using C2_order_of_the_written_days [of cross_month_rx "''Jan 30-31''" same_month_rx
        single_day_rx 2024 "''2024-01-30''" "''2024-01-31''" jan_range_match 30 31]
      search_jan_range groups_jan_range r
    by simp
  moreover have "iso_le ''2024-12-31'' ''2025-01-01''"
    using C2_order_of_the_written_days [of cross_month_rx "''Dec/Jan 31-1''" same_month_rx
        single_day_rx 2024 "''2024-12-31''" "''2025-01-01''" dec_jan_match 31 1 12 1]
      search_dec_jan groups_dec_jan c
    by simp
  moreover have "''2024-01-30'' = ''2024-01-30''"
    using C2_order_of_the_written_days [of cross_month_rx "''Jan 30''" same_month_rx
        single_day_rx 2024 "''2024-01-30''" "''2024-01-30''"]
      search_jan30 find_jan30
    by simp
  moreover have "''2025-10-31'' = ''2025-10-31''"
    using C2_order_of_the_written_days [of _ _ _ _ 2025 "''2025-10-31''" "''2025-10-31''" _ _ _ _ _
        "\<lparr>r_month = Some ''Oct'', r_date = Some ''31''\<rparr>" "''31''" False]
      row_matches parse_rows
    by simp
  moreover have "iso_le ''2025-07-29'' ''2025-07-30''"
    using C2_order_of_the_written_days [of _ _ _ _ 2025 "''2025-07-29''" "''2025-07-30''"
        "\<lparr>before = [], matched = ''29-30'', groups = [(''2'', ''30''), (''1'', ''29'')], after = []\<rparr>"
        29 30 _ _ "\<lparr>r_month = Some ''July'', r_date = Some ''29-30''\<rparr>" "''29-30''" False]
      row_matches row_groups parse_rows
    by simp
  ultimately show ?thesis
    using find_jan30 search_jan_range search_dec_jan parse_rows by simp
qed

text \<open>
  C2 as stated fails: no pipeline compares the two days of a range. The row \<open>Sept 17-16*\<close>
  of the future calendar gives an entry from 2025-09-17 to 2025-09-16, and the container
  \<open>Jan 20-5 (unscheduled)\<close> of the in-progress calendar one from 2024-01-20 to 2024-01-05.
\<close>

theorem C2_descending_days_counterexample:
  "map_sum id (map ordered) (parse_future_calendar (2025, 6, 1) future_page) = Inr [True, False]
   \<and> map_sum id (map ordered) (parse_current_calendar no_join [c_reversed]) = Inr [False]"
  by (simp add: future_run reversed_alone ordered_examples)

text \<open>
  C3, as the code has it. Within one page the identity key \<open>(year, start_date, end_date)\<close>
  is never repeated: no two entries returned by \<open>parse_current_calendar\<close>, by
  \<open>parse_future_calendar\<close>, or by \<open>_parse_year_page\<close> for one historical year page share
  it.
\<close>

theorem C3_keys_distinct_per_page:
  "(parse_current_calendar uj cs = Inr out1 \<longrightarrow> distinct (map key_of out1))
   \<and> (parse_future_calendar now secs = Inr out2 \<longrightarrow> distinct (map key_of out2))
   \<and> (parse_year_page yr pg src = Inr out3 \<longrightarrow> distinct (map key_of out3))"
  using current_distinct future_distinct year_page_distinct by blast

text \<open>
  C3 at the example pages: two containers of the in-progress calendar with one key, the
  future section, and the year page with two paragraphs for one meeting.
\<close>

theorem C3_keys_distinct_witness:
  "parse_current_calendar no_join [c_scheduled, c_unscheduled] =
     Inr [current_entry 2024 (parsed_day ''2024-01-30'' Scheduled) links_statement_only]
   \<and> distinct (map key_of [current_entry 2024 (parsed_day ''2024-01-30'' Scheduled) links_statement_only])
   \<and> parse_future_calendar (2025, 6, 1) future_page =
       Inr [future_entry 2025 ''2025-07-29'' ''2025-07-30'' False,
            future_entry 2025 ''2025-09-17'' ''2025-09-16'' True]
   \<and> distinct (map key_of [future_entry 2025 ''2025-07-29'' ''2025-07-30'' False,
                            future_entry 2025 ''2025-09-17'' ''2025-09-16'' True])
   \<and> parse_year_page 2015 two_paragraphs ''u'' =
       Inr [hist_entry 2015 ''u'' (Some ''2015-01-27'') (Some ''2015-01-28'')
        Scheduled False (\<lparr>l_statement = None,
          l_minutes = Some ''https://www.federalreserve.gov/monetarypolicy/fomcminutes20150128.htm'',
          l_press = None\<rparr>, False)]
   \<and> distinct (map key_of [hist_entry 2015 ''u'' (Some ''2015-01-27'') (Some ''2015-01-28'')
        Scheduled False (\<lparr>l_statement = None,
          l_minutes = Some ''https://www.federalreserve.gov/monetarypolicy/fomcminutes20150128.htm'',
          l_press = None\<rparr>, False)])"
  using C3_keys_distinct_per_page [of no_join "[c_scheduled, c_unscheduled]" _
      "(2025, 6, 1)" future_page _ 2015 two_paragraphs "''u''"]
    scheduled_then_unscheduled future_run two_paragraphs_run [of "''u''"]
  by simp

text \<open>
  C3 as stated fails for \<open>parse_historical\<close>, which concatenates the entries of the pages it
  fetches: the index links a page for 2015, the direct page for 2015 exists too, both give
  the meeting of 27-28 January, and the key is returned twice.
\<close>

theorem C3_historical_counterexample:
  "map_sum id (map key_of) (parse_historical site 2024 (Some [2015])) =
     Inr [(2015, Some ''2015-01-27'', Some ''2015-01-28''),
          (2015, Some ''2015-01-27'', Some ''2015-01-28'')]"
  by (simp add: parse_historical_def site_facts index_run direct_run meeting_page_run ebind_def
      key_of_def hist_entry_def)

text \<open>
  C4 at the failing input: a container \<open>Feb 30 (unscheduled)\<close> under the year 2024. In
  \<open>parse_current_calendar\<close> the date text \<open>2024-02-30\<close> is built without a check, passes the
  statement gate as an unscheduled meeting, and \<open>_date_from_iso\<close> raises \<open>ValueError\<close> out of
  the function. A historical year page with that heading does not raise and does not skip:
  its entry carries the date text \<open>2024-02-30\<close>.
\<close>

theorem C4_feb30_raises:
  "parse_current_calendar no_join [c_feb30] = Inl ValueError
   \<and> map_sum id (map start_date) (parse_year_page 2024 feb30_page ''u'') = Inr [Some ''2024-02-30'']"
  by (simp add: parse_current_calendar_def derive_feb30 ebind_def feb30_page_run hist_entry_def)

text \<open>
  C5, as the code has it. The candidates of \<open>parse_current_calendar\<close> are visited in the
  iteration order of a set. If a run returns, the run over the same candidates in any other
  order returns too, with the same identity keys; and when the containers that are not
  skipped bring pairwise different keys, it returns the same entries up to reordering.
\<close>

theorem C5_order_of_the_candidates:
  assumes "mset cs' = mset cs" and "parse_current_calendar uj cs = Inr out"
  shows "\<exists>out'. parse_current_calendar uj cs' = Inr out'
           \<and> mset (map key_of out') = mset (map key_of out)
           \<and> (distinct (map fst (derived uj cs)) \<longrightarrow> mset out' = mset out)"
proof -
  from assms(2) obtain recs where a: "assemble uj cs [] = Inr recs" and o: "out = map snd recs"
    by (auto simp: parse_current_calendar_def ebind_def split: sum.splits)
  from assemble_all_derive[OF a] have ok: "\<forall>c \<in> set cs. \<exists>d. derive uj c = Inr d" .
  from assms(1) have "set cs' = set cs" by (rule mset_eq_setD)
  with ok have ok': "\<forall>c \<in> set cs'. \<exists>d. derive uj c = Inr d" by simp
  from assemble_total[OF ok'] obtain recs' where a': "assemble uj cs' [] = Inr recs'" by blast
  then have run': "parse_current_calendar uj cs' = Inr (map snd recs')"
    by (simp add: parse_current_calendar_def ebind_def)
  from assms(1) have m: "mset (derived uj cs') = mset (derived uj cs)"
    by (simp add: mset_derived)
  then have "set (derived uj cs') = set (derived uj cs)" by (rule mset_eq_setD)
  with current_keys[OF run'] current_keys[OF assms(2)]
  have "set (map key_of (map snd recs')) = set (map key_of out)" by simp
  moreover have "distinct (map key_of (map snd recs'))" "distinct (map key_of out)"
    using current_distinct[OF run'] current_distinct[OF assms(2)] by simp_all
  ultimately have keys: "mset (map key_of (map snd recs')) = mset (map key_of out)"
    using set_eq_iff_mset_eq_distinct by blast
  have "distinct (map fst (derived uj cs)) \<longrightarrow> mset (map snd recs') = mset out"
  proof
    assume d: "distinct (map fst (derived uj cs))"
    from assemble_derived[OF ok] d a have recs: "recs = derived uj cs" by simp
    from m have "mset (map fst (derived uj cs')) = mset (map fst (derived uj cs))"
      by (metis mset_map)
    with d have d': "distinct (map fst (derived uj cs'))"
      by (metis mset_eq_imp_distinct_iff)
    from assemble_derived[OF ok'] d' a' have recs': "recs' = derived uj cs'" by simp
    from m have "mset (map snd (derived uj cs')) = mset (map snd (derived uj cs))"
      by (metis mset_map)
    then show "mset (map snd recs') = mset out" unfolding o recs recs' .
  qed
  with run' keys show ?thesis by blast
qed

text \<open>C5 at two containers with different keys, in both orders.\<close>

theorem C5_order_of_the_candidates_witness:
  "mset [c_unscheduled, c_reversed] = mset [c_reversed, c_unscheduled]
   \<and> parse_current_calendar no_join [c_reversed, c_unscheduled] =
       Inr [current_entry 2024 \<lparr>p_start = Some ''2024-01-20'', p_end = Some ''2024-01-05'',
              p_type = Unscheduled, p_cancelled = False, p_sep = False\<rparr> no_links,
            current_entry 2024 (parsed_day ''2024-01-30'' Unscheduled) links_statement_only]
   \<and> distinct (map fst (derived no_join [c_reversed, c_unscheduled]))
   \<and> (\<exists>out'. parse_current_calendar no_join [c_unscheduled, c_reversed] = Inr out'
        \<and> mset out' =
          mset [current_entry 2024 \<lparr>p_start = Some ''2024-01-20'', p_end = Some ''2024-01-05'',
                  p_type = Unscheduled, p_cancelled = False, p_sep = False\<rparr> no_links,
                current_entry 2024 (parsed_day ''2024-01-30'' Unscheduled) links_statement_only])"
proof -
  have m: "mset [c_unscheduled, c_reversed] = mset [c_reversed, c_unscheduled]" by simp
  have d: "distinct (map fst (derived no_join [c_reversed, c_unscheduled]))"
    by (simp add: derived_examples key_jan30_def)
  from C5_order_of_the_candidates [OF m reversed_then_unscheduled] d
  have "\<exists>out'. parse_current_calendar no_join [c_unscheduled, c_reversed] = Inr out'
        \<and> mset out' =
          mset [current_entry 2024 \<lparr>p_start = Some ''2024-01-20'', p_end = Some ''2024-01-05'',
                  p_type = Unscheduled, p_cancelled = False, p_sep = False\<rparr> no_links,
                current_entry 2024 (parsed_day ''2024-01-30'' Unscheduled) links_statement_only]"
    by blast
  with m d reversed_then_unscheduled show ?thesis by blast
qed

text \<open>
  C5 as stated fails: two containers with the key of 30 January 2024, one marked
  \<open>(unscheduled)\<close> and one not. The one visited first fixes the meeting type, so the two
  orders give entries that differ in it.
\<close>

theorem C5_iteration_order_counterexample:
  "map_sum id mset (parse_current_calendar no_join [c_unscheduled, c_scheduled]) \<noteq>
   map_sum id mset (parse_current_calendar no_join [c_scheduled, c_unscheduled])"
  by (simp add: unscheduled_then_scheduled scheduled_then_unscheduled current_entry_def
      parsed_day_def)

text \<open>
  C6, as the code has it, on the in-progress calendar. When a container that passes the
  gates brings a key that the result so far already has, the result keeps its entries and
  their order; in the entry under that key each link that is unset is taken from the new
  record, a link that is set stays, and every other field stays, so meeting type and
  cancellation are those of the first record.
\<close>

theorem C6_merge_fills_unset_links:
  assumes "parse_current_calendar uj cs = Inr out" and "k \<in> set (map key_of out)"
    and "derive uj c = Inr (Some (k, new))"
  shows "parse_current_calendar uj (cs @ [c]) =
     Inr (map (\<lambda>e. if key_of e = k
                     then e\<lparr>statement_url_html :=
                              (if truthy (statement_url_html e) then statement_url_html e
                               else statement_url_html new),
                            minutes_url_html :=
                              (if truthy (minutes_url_html e) then minutes_url_html e
                               else minutes_url_html new),
                            press_conference_url_html :=
                              (if truthy (press_conference_url_html e) then press_conference_url_html e
                               else press_conference_url_html new)\<rparr>
                     else e) out)"
proof -
  from assms(1) obtain recs where a: "assemble uj cs [] = Inr recs" and o: "out = map snd recs"
    by (auto simp: parse_current_calendar_def ebind_def split: sum.splits)
  have "keyed []" by (simp add: keyed_def)
  from keyed_assemble[OF this a] have kd: "\<forall>kr \<in> set recs. key_of (snd kr) = fst kr"
    by (simp add: keyed_def)
  then have "map key_of (map snd recs) = map fst recs" by simp
  with assms(2) o have kin: "k \<in> fst ` set recs" by simp
  have "assemble uj (cs @ [c]) [] = Inr (upsert k new recs)"
    using a assms(3) by (simp add: assemble_append)
  moreover have "map snd (upsert k new recs) =
      map (\<lambda>e. if key_of e = k then fill_links e new else e) (map snd recs)"
    using kin kd by (auto simp: upsert_def)
  ultimately show ?thesis
    unfolding o by (simp add: parse_current_calendar_def ebind_def fill_links_def)
qed

text \<open>
  C6 at two unscheduled containers of 30 January 2024, the first with only a minutes link
  and the second with only a statement link: one entry with both links.
\<close>

theorem C6_merge_fills_unset_links_witness:
  "parse_current_calendar no_join [c_unscheduled_minutes] =
     Inr [current_entry 2024 (parsed_day ''2024-01-30'' Unscheduled) links_minutes_only]
   \<and> parse_current_calendar no_join ([c_unscheduled_minutes] @ [c_unscheduled]) =
     Inr [current_entry 2024 (parsed_day ''2024-01-30'' Unscheduled)
            \<lparr>l_statement = Some statement_url, l_minutes = Some minutes_url, l_press = None\<rparr>]"
proof -
  have k: "key_jan30 \<in> set (map key_of
      [current_entry 2024 (parsed_day ''2024-01-30'' Unscheduled) links_minutes_only])"
    by (simp add: key_of_def current_entry_def parsed_day_def key_jan30_def)
  from C6_merge_fills_unset_links [OF unscheduled_minutes_alone k derive_unscheduled]
    unscheduled_minutes_alone
  show ?thesis
    by (simp add: key_of_def current_entry_def parsed_day_def key_jan30_def
        links_minutes_only_def links_statement_only_def minutes_url_def)
qed

text \<open>
  C6 as stated fails in both pipelines it names. On the in-progress calendar the scheduled
  container with only a minutes link is dropped by the statement gate, so the entry of the
  container with the statement has no minutes link. On a historical year page the second
  paragraph of the meeting is skipped as seen, so the entry has no statement link.
\<close>

theorem C6_no_merge_counterexample:
  "map_sum id (map minutes_url_html) (parse_current_calendar no_join [c_minutes, c_scheduled]) =
     Inr [None]
   \<and> map_sum id (map statement_url_html) (parse_year_page 2015 two_paragraphs ''u'') = Inr [None]"
  by (simp add: minutes_then_scheduled two_paragraphs_run current_entry_def hist_entry_def
      links_statement_only_def)

text \<open>
  C7. On the in-progress calendar, a container that parses to \<open>Scheduled\<close>, not cancelled,
  and has no statement link is skipped: the result is that of the run without it.
\<close>

theorem C7_statement_gate:
  assumes "resolve_year c = Some yr"
    and "parse_dates_and_flags yr (date_prefix_of c) (has_proj_of uj c) = Inr p"
    and "p_type p = Scheduled" and "\<not> p_cancelled p"
    and "\<not> truthy (l_statement (links_of uj c))"
  shows "parse_current_calendar uj (cs1 @ c # cs2) = parse_current_calendar uj (cs1 @ cs2)"
  using assms by (intro current_skip derive_gate)

text \<open>
  C7 at the container \<open>Jan 30 Minutes\<close>, whose only link is to the minutes, before a
  container that is kept.
\<close>

theorem C7_statement_gate_witness:
  "parse_current_calendar no_join ([] @ c_minutes # [c_scheduled]) =
     parse_current_calendar no_join ([] @ [c_scheduled])
   \<and> parse_current_calendar no_join ([] @ [c_scheduled]) =
     Inr [current_entry 2024 (parsed_day ''2024-01-30'' Scheduled) links_statement_only]"
proof -
  have "parse_current_calendar no_join ([] @ c_minutes # [c_scheduled]) =
          parse_current_calendar no_join ([] @ [c_scheduled])"
  proof (rule C7_statement_gate)
    show "resolve_year c_minutes = Some 2024"
      by (simp add: c_minutes_def year_in_2024)
    show "parse_dates_and_flags 2024 (date_prefix_of c_minutes) (has_proj_of no_join c_minutes) =
            Inr (parsed_day ''2024-01-30'' Scheduled)"
      by (simp add: c_minutes_def in_2024_simps parse_jan30_minutes)
    show "p_type (parsed_day ''2024-01-30'' Scheduled) = Scheduled"
      by (simp add: parsed_day_def)
    show "\<not> p_cancelled (parsed_day ''2024-01-30'' Scheduled)"
      by (simp add: parsed_day_def)
    show "\<not> truthy (l_statement (links_of no_join c_minutes))"
      by (simp add: c_minutes_def in_2024_simps)
  qed
  then show ?thesis using scheduled_alone by simp
qed

text \<open>
  C8. On the in-progress calendar, take a container that reaches the cross-check with a
  statement link whose URL gives a calendar date \<open>pd\<close>, and whose end date is the calendar
  date \<open>ed\<close>. If the two differ the container is skipped: the result is that of the run
  without it. If they agree the container is kept: every result of the run has an entry
  under its key.
\<close>

theorem C8_press_date_cross_check:
  assumes "date_prefix_of c \<noteq> []" and "found True MONTH_RE (date_prefix_of c)"
    and "resolve_year c = Some yr"
    and "parse_dates_and_flags yr (date_prefix_of c) (has_proj_of uj c) = Inr p"
    and "truthy (p_start p)"
    and "truthy (l_statement (links_of uj c))"
    and "extract_press_date_from_url (l_statement (links_of uj c)) = Some pd"
    and "date_from_iso (p_end p) = Inr (Some ed)"
  shows "(pd \<noteq> ed \<longrightarrow>
            parse_current_calendar uj (cs1 @ c # cs2) = parse_current_calendar uj (cs1 @ cs2))
       \<and> (pd = ed \<longrightarrow>
            (\<forall>out. parse_current_calendar uj (cs1 @ c # cs2) = Inr out \<longrightarrow>
                   (yr, p_start p, p_end p) \<in> set (map key_of out)))"
proof (intro conjI impI allI)
  assume "pd \<noteq> ed"
  with derive_cross_check[OF assms] have "derive uj c = Inr None" by simp
  then show "parse_current_calendar uj (cs1 @ c # cs2) = parse_current_calendar uj (cs1 @ cs2)"
    by (rule current_skip)
next
  fix out
  assume "pd = ed" and run: "parse_current_calendar uj (cs1 @ c # cs2) = Inr out"
  with derive_cross_check[OF assms]
  have "derive uj c = Inr (Some ((yr, p_start p, p_end p), current_entry yr p (links_of uj c)))"
    by simp
  from current_brings_key[OF this run] show "(yr, p_start p, p_end p) \<in> set (map key_of out)" .
qed

text \<open>
  C8 at two containers with the statement of 30 January 2024: \<open>Jan 31\<close>, which is dropped,
  and \<open>Jan 30\<close>, which is kept.
\<close>

theorem C8_press_date_cross_check_witness:
  "parse_current_calendar no_join ([] @ c_mismatch # [c_scheduled]) =
     parse_current_calendar no_join ([] @ [c_scheduled])
   \<and> parse_current_calendar no_join ([] @ c_scheduled # []) =
       Inr [current_entry 2024 (parsed_day ''2024-01-30'' Scheduled) links_statement_only]
   \<and> (2024, Some ''2024-01-30'', Some ''2024-01-30'') \<in>
       set (map key_of [current_entry 2024 (parsed_day ''2024-01-30'' Scheduled) links_statement_only])"
proof -
  have a: "parse_current_calendar no_join ([] @ c_mismatch # [c_scheduled]) =
             parse_current_calendar no_join ([] @ [c_scheduled])"
    using C8_press_date_cross_check [of c_mismatch 2024 no_join "parsed_day ''2024-01-31'' Scheduled"
        "(2024, 1, 30)" "(2024, 1, 31)" "[]" "[c_scheduled]"]
    by (simp add: c_mismatch_def in_2024_simps parse_jan31)
  have b: "(2024, Some ''2024-01-30'', Some ''2024-01-30'') \<in>
       set (map key_of [current_entry 2024 (parsed_day ''2024-01-30'' Scheduled) links_statement_only])"
    using C8_press_date_cross_check [of c_scheduled 2024 no_join "parsed_day ''2024-01-30'' Scheduled"
        "(2024, 1, 30)" "(2024, 1, 30)" "[]" "[]"] scheduled_alone
    by (simp add: c_scheduled_def in_2024_simps parse_jan30)
  from a b scheduled_alone show ?thesis by simp
qed

text \<open>
  C9, as the code has it. On the in-progress calendar the qualifiers are read from the
  first parenthetical note of the date prefix: \<open>notation vote\<close> in it gives \<open>NotationVote\<close>,
  else \<open>unscheduled\<close> in it gives \<open>Unscheduled\<close>, else the type is \<open>Scheduled\<close>; the entry is
  cancelled exactly when the note contains \<open>cancelled\<close> or \<open>canceled\<close>. On a historical year
  page the whole text decides in the same way, case-insensitively, for an entry that the
  text adds.
\<close>

theorem C9_qualifiers_by_pipeline:
  "(derive uj c = Inr (Some (k, e)) \<longrightarrow>
      meeting_type e =
        (if note_has (note_of (date_prefix_of c)) ''notation vote'' then NotationVote
         else if note_has (note_of (date_prefix_of c)) ''unscheduled'' then Unscheduled
         else Scheduled)
      \<and> is_cancelled e =
        (note_has (note_of (date_prefix_of c)) ''cancelled''
         \<or> note_has (note_of (date_prefix_of c)) ''canceled''))
   \<and> (hist_add yr src text lk st = Inr st' \<and> e' \<in> set (snd st') \<and> e' \<notin> set (snd st) \<longrightarrow>
      meeting_type e' =
        (if str_in ''notation vote'' (lower (normalize_text text)) then NotationVote
         else if str_in ''unscheduled'' (lower (normalize_text text)) then Unscheduled
         else Scheduled)
      \<and> is_cancelled e' =
        (str_in ''cancelled'' (lower text) \<or> str_in ''canceled'' (lower text)))"
proof (intro conjI impI)
  assume d: "derive uj c = Inr (Some (k, e))"
  then obtain yr p where p: "parse_dates_and_flags yr (date_prefix_of c) (has_proj_of uj c) = Inr p"
    and e: "e = current_entry yr p (links_of uj c)"
    by (auto simp: derive_def ebind_def Let_def split: if_splits option.splits sum.splits)
  from p have "p_type p =
        (if note_has (note_of (date_prefix_of c)) ''notation vote'' then NotationVote
         else if note_has (note_of (date_prefix_of c)) ''unscheduled'' then Unscheduled
         else Scheduled)"
    and "p_cancelled p = (note_has (note_of (date_prefix_of c)) ''cancelled''
         \<or> note_has (note_of (date_prefix_of c)) ''canceled'')"
    by (auto simp: parse_dates_and_flags_def ebind_def Let_def split: sum.splits)
  then show "meeting_type e =
        (if note_has (note_of (date_prefix_of c)) ''notation vote'' then NotationVote
         else if note_has (note_of (date_prefix_of c)) ''unscheduled'' then Unscheduled
         else Scheduled)"
    and "is_cancelled e = (note_has (note_of (date_prefix_of c)) ''cancelled''
         \<or> note_has (note_of (date_prefix_of c)) ''canceled'')"
    unfolding e by (simp_all add: current_entry_def)
next
  assume h: "hist_add yr src text lk st = Inr st' \<and> e' \<in> set (snd st') \<and> e' \<notin> set (snd st)"
  then obtain sd ed b mt where p: "parse_dates_from_text yr text = Inr (sd, ed, b, mt)"
    and e: "e' = hist_entry yr src sd ed mt (text_cancelled text) lk"
    by (auto simp: hist_add_def ebind_def split: sum.splits if_splits prod.splits)
  from p have "mt =
        (if str_in ''notation vote'' (lower (normalize_text text)) then NotationVote
         else if str_in ''unscheduled'' (lower (normalize_text text)) then Unscheduled
         else Scheduled)"
    by (auto simp: parse_dates_from_text_def normalize_text_def ebind_def Let_def split: sum.splits)
  then show "meeting_type e' =
        (if str_in ''notation vote'' (lower (normalize_text text)) then NotationVote
         else if str_in ''unscheduled'' (lower (normalize_text text)) then Unscheduled
         else Scheduled)"
    and "is_cancelled e' = (str_in ''cancelled'' (lower text) \<or> str_in ''canceled'' (lower text))"
    unfolding e by (simp_all add: hist_entry_def text_cancelled_def)
qed

text \<open>
  C9 at the container \<open>Jan 30 (unscheduled)\<close> of the in-progress calendar and at the heading
  \<open>Jan 27-28 Meeting\<close> of a historical year page.
\<close>

theorem C9_qualifiers_by_pipeline_witness:
  "derive no_join c_unscheduled =
     Inr (Some (key_jan30, current_entry 2024 (parsed_day ''2024-01-30'' Unscheduled) links_statement_only))
   \<and> note_of (date_prefix_of c_unscheduled) = Some ''unscheduled''
   \<and> meeting_type (current_entry 2024 (parsed_day ''2024-01-30'' Unscheduled) links_statement_only)
       = Unscheduled
   \<and> is_cancelled (current_entry 2024 (parsed_day ''2024-01-30'' Unscheduled) links_statement_only)
       = False
   \<and> hist_add 2015 ''u'' ''Jan 27-28 Meeting'' (no_links, False) ([], []) =
       Inr ([(2015, Some ''2015-01-27'', Some ''2015-01-28'')],
            [hist_entry 2015 ''u'' (Some ''2015-01-27'') (Some ''2015-01-28'') Scheduled False
               (no_links, False)])
   \<and> meeting_type (hist_entry 2015 ''u'' (Some ''2015-01-27'') (Some ''2015-01-28'') Scheduled False
        (no_links, False)) = Scheduled
   \<and> is_cancelled (hist_entry 2015 ''u'' (Some ''2015-01-27'') (Some ''2015-01-28'') Scheduled False
        (no_links, False)) = False"
proof -
  have n: "note_of (date_prefix_of c_unscheduled) = Some ''unscheduled''"
    by (simp add: c_unscheduled_def in_2024_simps note_unscheduled)
  from C9_qualifiers_by_pipeline [of no_join c_unscheduled key_jan30
      "current_entry 2024 (parsed_day ''2024-01-30'' Unscheduled) links_statement_only"
      2015 "''u''" "''Jan 27-28 Meeting''" "(no_links, False)" "([], [])"
      "([(2015, Some ''2015-01-27'', Some ''2015-01-28'')],
        [hist_entry 2015 ''u'' (Some ''2015-01-27'') (Some ''2015-01-28'') Scheduled False
           (no_links, False)])"
      "hist_entry 2015 ''u'' (Some ''2015-01-27'') (Some ''2015-01-28'') Scheduled False
         (no_links, False)"]
    derive_unscheduled hist_add_meeting n
  show ?thesis by (simp add: note_has_unscheduled hist_text_flags)
qed

text \<open>
  C9 as stated fails on the in-progress calendar: the container \<open>Jan 30 cancelled\<close> with a
  statement link has \<open>cancelled\<close> in its text but no parenthetical note, and its entry is
  not cancelled.
\<close>

theorem C9_cancelled_outside_note_counterexample:
  "str_in ''cancelled'' (c_prefix c_cancelled_plain)
   \<and> map_sum id (map is_cancelled) (parse_current_calendar no_join [c_cancelled_plain]) = Inr [False]"
proof -
  have "str_in ''cancelled'' (c_prefix c_cancelled_plain)"
    by (simp add: c_cancelled_plain_def in_2024_def)
  moreover have "map_sum id (map is_cancelled) (parse_current_calendar no_join [c_cancelled_plain]) =
      Inr [False]"
    by (simp add: cancelled_plain_alone current_entry_def parsed_day_def)
  ultimately show ?thesis by simp
qed

text \<open>
  C10. Every entry returned by \<open>parse_future_calendar\<close> is \<open>Scheduled\<close>, not cancelled, and
  has none of the three document links.
\<close>

theorem C10_future_entries_bare:
  assumes "parse_future_calendar now secs = Inr out"
  shows "\<forall>e \<in> set out. meeting_type e = Scheduled \<and> \<not> is_cancelled e
           \<and> statement_url_html e = None \<and> minutes_url_html e = None
           \<and> press_conference_url_html e = None"
proof -
  from assms obtain st where a: "future_sections now secs ([], []) = Inr st" and o: "out = snd st"
    by (auto simp: parse_future_calendar_def ebind_def split: sum.splits)
  have "list_all bare (snd ([], []))" by simp
  from bare_future_sections[OF this a] show ?thesis
    unfolding o by (simp add: list_all_iff bare_def)
qed

text \<open>C10 at the example section: the two entries returned have these five fields.\<close>

theorem C10_future_entries_bare_witness:
  "parse_future_calendar (2025, 6, 1) future_page =
     Inr [future_entry 2025 ''2025-07-29'' ''2025-07-30'' False,
          future_entry 2025 ''2025-09-17'' ''2025-09-16'' True]
   \<and> meeting_type (future_entry 2025 ''2025-09-17'' ''2025-09-16'' True) = Scheduled
   \<and> \<not> is_cancelled (future_entry 2025 ''2025-09-17'' ''2025-09-16'' True)
   \<and> statement_url_html (future_entry 2025 ''2025-09-17'' ''2025-09-16'' True) = None
   \<and> minutes_url_html (future_entry 2025 ''2025-09-17'' ''2025-09-16'' True) = None
   \<and> press_conference_url_html (future_entry 2025 ''2025-09-17'' ''2025-09-16'' True) = None"
  using C10_future_entries_bare [OF future_run] future_run by simp

end
